theory Spec2Isabelle
  imports Complex_Main "HOL-Library.Sublist" "HOL-Library.AList"
begin

section \<open>The file system\<close>

text \<open>
  The installer works on absolute paths of one local file system. A path is the list of
  its components (\<open>path.join\<close> appends components), the root is the empty list. The
  file system is an association list from paths to nodes; a lookup is \<open>map_of\<close>, a write
  is \<open>AList.update\<close>. Each operation of \<open>fs\<close> that the sources call is a function here
  that returns the error the call would throw as a value.
\<close>

type_synonym path = "string list"

type_synonym content = string

datatype node = File content | Dir

type_synonym filesystem = "(path \<times> node) list"

datatype error = ENOENT | ENOTDIR | EISDIR | EEXIST | ENOTEMPTY | SyntaxError | TypeError

definition is_dir :: "filesystem \<Rightarrow> path \<Rightarrow> bool" where
  "is_dir fs p \<longleftrightarrow> p = [] \<or> map_of fs p = Some Dir"

text \<open>The proper ancestors of a path, the root first.\<close>

definition ancestors :: "path \<Rightarrow> path list" where
  "ancestors p = butlast (prefixes p)"

text \<open>Path resolution fails at the first ancestor that is not a directory.\<close>

definition resolve_parent :: "filesystem \<Rightarrow> path \<Rightarrow> error option" where
  "resolve_parent fs p =
     (case filter (\<lambda>q. \<not> is_dir fs q) (ancestors p) of
        [] \<Rightarrow> None
      | q # _ \<Rightarrow> Some (if map_of fs q = None then ENOENT else ENOTDIR))"

definition stat :: "filesystem \<Rightarrow> path \<Rightarrow> error + node" where
  "stat fs p =
     (case resolve_parent fs p of
        Some e \<Rightarrow> Inl e
      | None \<Rightarrow>
          if p = [] then Inr Dir
          else (case map_of fs p of None \<Rightarrow> Inl ENOENT | Some n \<Rightarrow> Inr n))"

text \<open>\<open>fs.access(p)\<close>\<close>

definition fs_access :: "filesystem \<Rightarrow> path \<Rightarrow> error + unit" where
  "fs_access fs p = (case stat fs p of Inl e \<Rightarrow> Inl e | Inr _ \<Rightarrow> Inr ())"

text \<open>\<open>fs.readFile(p)\<close>\<close>

definition readFile :: "filesystem \<Rightarrow> path \<Rightarrow> error + content" where
  "readFile fs p =
     (case stat fs p of
        Inl e \<Rightarrow> Inl e
      | Inr Dir \<Rightarrow> Inl EISDIR
      | Inr (File c) \<Rightarrow> Inr c)"

text \<open>\<open>fs.writeFile(p, c)\<close>: creates the file or replaces its content.\<close>

definition writeFile :: "filesystem \<Rightarrow> path \<Rightarrow> content \<Rightarrow> error + filesystem" where
  "writeFile fs p c =
     (case resolve_parent fs p of
        Some e \<Rightarrow> Inl e
      | None \<Rightarrow> if is_dir fs p then Inl EISDIR else Inr (AList.update p (File c) fs))"

text \<open>
  \<open>fs.copyFile(src, dest)\<close>, where the source file lies in the profile directory, which
  the synchronizer only reads: the bytes of the source file are the first argument.
\<close>

definition copyFile :: "content \<Rightarrow> filesystem \<Rightarrow> path \<Rightarrow> error + filesystem" where
  "copyFile srcBytes fs dest = writeFile fs dest srcBytes"

text \<open>
  \<open>fs.mkdir(p, {recursive: true})\<close>: every missing directory on the way to \<open>p\<close> is
  created, existing directories are kept, a file on the way is an error.
\<close>

fun mkdirs :: "filesystem \<Rightarrow> path list \<Rightarrow> error + filesystem" where
  "mkdirs fs [] = Inr fs"
| "mkdirs fs (q # qs) =
     (case map_of fs q of
        None \<Rightarrow> mkdirs (AList.update q Dir fs) qs
      | Some Dir \<Rightarrow> mkdirs fs qs
      | Some (File c) \<Rightarrow> Inl (if qs = [] then EEXIST else ENOTDIR))"

definition mkdir_recursive :: "filesystem \<Rightarrow> path \<Rightarrow> error + filesystem" where
  "mkdir_recursive fs p = mkdirs fs (tl (prefixes p))"

text \<open>\<open>unlinkSync(p)\<close>\<close>

definition unlink :: "filesystem \<Rightarrow> path \<Rightarrow> error + filesystem" where
  "unlink fs p =
     (case stat fs p of
        Inl e \<Rightarrow> Inl e
      | Inr Dir \<Rightarrow> Inl EISDIR
      | Inr (File c) \<Rightarrow> Inr (AList.delete p fs))"

text \<open>\<open>fs.rm(p, {recursive: true, force: true})\<close>: \<open>p\<close> and everything below it goes.\<close>

definition rm_recursive_force :: "filesystem \<Rightarrow> path \<Rightarrow> filesystem" where
  "rm_recursive_force fs p = filter (\<lambda>(q, n). \<not> prefix p q) fs"

text \<open>\<open>readdirSync(p)\<close>: the names of the children of a directory.\<close>

definition readdir :: "filesystem \<Rightarrow> path \<Rightarrow> error + string list" where
  "readdir fs p =
     (case stat fs p of
        Inl e \<Rightarrow> Inl e
      | Inr (File c) \<Rightarrow> Inl ENOTDIR
      | Inr Dir \<Rightarrow>
          Inr (remdups (map (\<lambda>(q, n). last q) (filter (\<lambda>(q, n). q \<noteq> [] \<and> butlast q = p) fs))))"

text \<open>\<open>rmdirSync(p)\<close>\<close>

definition rmdir :: "filesystem \<Rightarrow> path \<Rightarrow> error + filesystem" where
  "rmdir fs p =
     (case readdir fs p of
        Inl e \<Rightarrow> Inl e
      | Inr [] \<Rightarrow> Inr (AList.delete p fs)
      | Inr (n # ns) \<Rightarrow> Inl ENOTEMPTY)"

text \<open>\<open>existsSync(p)\<close>, and the \<open>fileExists\<close> helpers built on \<open>fs.access\<close>.\<close>

definition fileExists :: "filesystem \<Rightarrow> path \<Rightarrow> bool" where
  "fileExists fs filePath = (case fs_access fs filePath of Inr _ \<Rightarrow> True | Inl _ \<Rightarrow> False)"

text \<open>
  \<open>path.relative(from, to)\<close> on normalized absolute paths: the common prefix is dropped,
  each remaining component of \<open>from\<close> becomes \<open>..\<close>.
\<close>

fun path_relative :: "path \<Rightarrow> path \<Rightarrow> path" where
  "path_relative (x # xs) (y # ys) =
     (if x = y then path_relative xs ys else replicate (Suc (length xs)) ''..'' @ (y # ys))"
| "path_relative [] ys = ys"
| "path_relative xs [] = replicate (length xs) ''..''"


section \<open>JSON values\<close>

text \<open>
  What \<open>JSON.parse\<close> returns: the manifest and the configuration are read from disk
  and cast to their TypeScript types without a check, so the code that validates them
  works on these values. An object is the list of its properties in insertion order;
  \<open>None\<close> stands for \<open>undefined\<close>.
\<close>

datatype json =
    JNull
  | JBool bool
  | JNum rat
  | JStr string
  | JArr "json list"
  | JObj "(string \<times> json) list"

fun typeof :: "json option \<Rightarrow> string" where
  "typeof None = ''undefined''"
| "typeof (Some JNull) = ''object''"
| "typeof (Some (JBool b)) = ''boolean''"
| "typeof (Some (JNum n)) = ''number''"
| "typeof (Some (JStr s)) = ''string''"
| "typeof (Some (JArr xs)) = ''object''"
| "typeof (Some (JObj kvs)) = ''object''"

text \<open>
  Reading a property \<open>v.k\<close> of a value that is not \<open>null\<close>, for the property names the
  sources read (none of them is a built-in property of an array or a primitive).
\<close>

fun jget :: "json \<Rightarrow> string \<Rightarrow> json option" where
  "jget (JObj kvs) k = map_of kvs k"
| "jget v k = None"

text \<open>Optional chaining \<open>v?.k\<close>.\<close>

fun jget_opt :: "json option \<Rightarrow> string \<Rightarrow> json option" where
  "jget_opt None k = None"
| "jget_opt (Some JNull) k = None"
| "jget_opt (Some v) k = jget v k"

fun truthy :: "json option \<Rightarrow> bool" where
  "truthy None = False"
| "truthy (Some JNull) = False"
| "truthy (Some (JBool b)) = b"
| "truthy (Some (JNum n)) = (n \<noteq> 0)"
| "truthy (Some (JStr s)) = (s \<noteq> [])"
| "truthy (Some (JArr xs)) = True"
| "truthy (Some (JObj kvs)) = True"


section \<open>The runtime\<close>

text \<open>
  What the sources take from the platform and from other modules: the SHA-256 digest in
  hexadecimal (\<open>crypto.createHash\<close>), the template substitution of \<open>template.js\<close>
  (with the UTF-8 decoding and encoding around it), the package version
  (\<open>getCurrentPackageVersion()\<close>, which may be absent), the clock
  (\<open>new Date().toISOString()\<close>, one reading per run), \<open>JSON.parse\<close> (\<open>None\<close> is its
  SyntaxError) and \<open>JSON.stringify\<close> with indentation 2. The theorems hold for every
  such runtime.
\<close>

record env =
  sha256 :: "content \<Rightarrow> string"
  substituteTemplatePaths :: "content \<Rightarrow> path \<Rightarrow> content"
  getCurrentPackageVersion :: "string option"
  now :: string
  JSON_parse :: "content \<Rightarrow> json option"
  JSON_stringify :: "json \<Rightarrow> content"


section \<open>manifest.ts\<close>

definition computeFileHash :: "env \<Rightarrow> filesystem \<Rightarrow> path \<Rightarrow> error + string" where
  "computeFileHash rt fs filePath =
     (case readFile fs filePath of
        Inl e \<Rightarrow> Inl e
      | Inr c \<Rightarrow> Inr (sha256 rt c))"

text \<open>The \<open>catch\<close> of \<open>isFileModified\<close> turns every error of the hashing into \<open>false\<close>.\<close>

definition isFileModified :: "env \<Rightarrow> filesystem \<Rightarrow> path \<Rightarrow> string \<Rightarrow> error + bool" where
  "isFileModified rt fs filePath expectedHash =
     (case computeFileHash rt fs filePath of
        Inr currentHash \<Rightarrow> Inr (currentHash \<noteq> expectedHash)
      | Inl e \<Rightarrow> Inr False)"

definition getManifestPath :: "path \<Rightarrow> path" where
  "getManifestPath installDir = installDir @ [''.claude'', ''.nojo-manifest.json'']"

text \<open>
  The declared types of \<open>types.ts\<close>. A manifest key is a path relative to the install
  directory, kept as its list of components.
\<close>

datatype source = Nojo | User | Existing

record ManifestEntry =
  path :: path
  hash :: string
  source :: source
  profile :: "string option"
  version :: string
  installedAt :: string

record PreInstallSnapshot =
  snapshotCreatedAt :: string
  snapshotFiles :: "(path \<times> string) list"

record Manifest =
  schemaVersion :: nat
  nojoVersion :: string
  createdAt :: string
  updatedAt :: string
  files :: "(path \<times> ManifestEntry) list"
  preInstallSnapshot :: "PreInstallSnapshot option"

definition currentVersion :: "env \<Rightarrow> string" where
  "currentVersion rt = (case getCurrentPackageVersion rt of Some v \<Rightarrow> v | None \<Rightarrow> ''unknown'')"

definition createManifest :: "env \<Rightarrow> Manifest" where
  "createManifest rt =
     \<lparr>schemaVersion = 1, nojoVersion = currentVersion rt, createdAt = now rt,
      updatedAt = now rt, files = [], preInstallSnapshot = None\<rparr>"

definition addToManifest ::
  "env \<Rightarrow> Manifest \<Rightarrow> path \<Rightarrow> string \<Rightarrow> source \<Rightarrow> string option \<Rightarrow> string \<Rightarrow> Manifest" where
  "addToManifest rt m filePath h src prof ver =
     (let entry = \<lparr>path = filePath, hash = h, source = src, profile = prof, version = ver,
                   installedAt = now rt\<rparr>
      in m\<lparr>files := AList.update filePath entry (files m)\<rparr>)"

definition removeFromManifest :: "Manifest \<Rightarrow> path \<Rightarrow> Manifest" where
  "removeFromManifest m filePath = m\<lparr>files := AList.delete filePath (files m)\<rparr>"

definition getManifestEntry :: "Manifest \<Rightarrow> path \<Rightarrow> ManifestEntry option" where
  "getManifestEntry m filePath = map_of (files m) filePath"

definition getEntriesForProfile :: "Manifest \<Rightarrow> string \<Rightarrow> ManifestEntry list" where
  "getEntriesForProfile m profileName =
     filter (\<lambda>entry. profile entry = Some profileName) (map snd (files m))"

definition getNojoManagedEntries :: "Manifest \<Rightarrow> ManifestEntry list" where
  "getNojoManagedEntries m = filter (\<lambda>entry. source entry = Nojo) (map snd (files m))"


text \<open>
  \<open>loadManifest\<close>: the body of the \<open>try\<close> is the inner sum, the \<open>catch\<close> turns each
  of its errors into \<open>null\<close>. The result is the parsed value itself: the cast
  \<open>as Manifest\<close> checks nothing.
\<close>

definition loadManifest :: "env \<Rightarrow> filesystem \<Rightarrow> path \<Rightarrow> error + json option" where
  "loadManifest rt fs installDir =
     (let manifestPath = getManifestPath installDir;
          body =
            (case fs_access fs manifestPath of
               Inl e \<Rightarrow> Inl e
             | Inr u \<Rightarrow>
                 (case readFile fs manifestPath of
                    Inl e \<Rightarrow> Inl e
                  | Inr c \<Rightarrow>
                      (case JSON_parse rt c of
                         None \<Rightarrow> Inl SyntaxError
                       | Some m \<Rightarrow>
                           if m = JNull \<or> typeof (Some m) \<noteq> ''object'' \<or>
                              jget m ''schemaVersion'' \<noteq> Some (JNum 1) \<or>
                              typeof (jget m ''files'') \<noteq> ''object''
                           then Inr None
                           else Inr (Some m))))
      in case body of Inl e \<Rightarrow> Inr None | Inr r \<Rightarrow> Inr r)"

text \<open>
  \<open>saveManifest\<close> on the object it is given (its properties): the two assignments, then
  the complete overwrite of the manifest file. It returns the disk and the object as the
  call leaves them.
\<close>

definition saveManifest ::
  "env \<Rightarrow> path \<Rightarrow> (string \<times> json) list \<Rightarrow> filesystem
     \<Rightarrow> (error + unit) \<times> filesystem \<times> (string \<times> json) list" where
  "saveManifest rt installDir m fs =
     (let manifestPath = getManifestPath installDir;
          claudeDir = butlast manifestPath
      in case mkdir_recursive fs claudeDir of
           Inl e \<Rightarrow> (Inl e, fs, m)
         | Inr fs1 \<Rightarrow>
             (let m1 = AList.update ''updatedAt'' (JStr (now rt)) m;
                  m2 = AList.update ''nojoVersion'' (JStr (currentVersion rt)) m1
              in case writeFile fs1 manifestPath (JSON_stringify rt (JObj m2)) of
                   Inl e \<Rightarrow> (Inl e, fs1, m2)
                 | Inr fs2 \<Rightarrow> (Inr (), fs2, m2)))"



section \<open>The skills loader: \<open>copyDirWithManifestTracking\<close>\<close>

text \<open>
  The source directory of a sync lies under \<open>.claude/profiles\<close>, the destination under
  \<open>.claude/skills\<close>; the run reads the first and writes the second. The source tree is
  therefore the value that \<open>readdir\<close> and \<open>readFile\<close> return for it: a list of entries,
  a file with its name and bytes, a directory with its name and entries.
\<close>

datatype src_entry = SrcFile string content | SrcDir string "src_entry list"

record counts =
  preserved :: nat
  installed :: nat

text \<open>
  The state a run works on: the disk, the manifest object it mutates in place, and the
  lines printed by \<open>info\<close>.
\<close>

record sync_state =
  disk :: filesystem
  manifest :: Manifest
  console :: "string list"

definition info :: "string \<Rightarrow> sync_state \<Rightarrow> sync_state" where
  "info message st = st\<lparr>console := console st @ [message]\<rparr>"

text \<open>Which of the two counters the loop body incremented.\<close>

datatype outcome = Preserved | Installed

text \<open>The tail of the loop body: "Safe to install/update" and "Track in manifest".\<close>

definition installFile ::
  "env \<Rightarrow> string \<Rightarrow> path \<Rightarrow> path \<Rightarrow> string \<Rightarrow> content \<Rightarrow> content \<Rightarrow> sync_state
     \<Rightarrow> (error + outcome) \<times> sync_state" where
  "installFile rt profileName destPath relativePath name srcBytes newContent st =
     (case (if suffix ''.md'' name then writeFile (disk st) destPath newContent
            else copyFile srcBytes (disk st) destPath) of
        Inl e \<Rightarrow> (Inl e, st)
      | Inr fs' \<Rightarrow>
          (case computeFileHash rt fs' destPath of
             Inl e \<Rightarrow> (Inl e, st\<lparr>disk := fs'\<rparr>)
           | Inr newHash \<Rightarrow>
               (Inr Installed,
                st\<lparr>disk := fs',
                   manifest := addToManifest rt (manifest st) relativePath newHash Nojo
                                 (Some profileName) (currentVersion rt)\<rparr>)))"

text \<open>The loop body for an entry that is not a directory.\<close>

definition syncFile ::
  "env \<Rightarrow> path \<Rightarrow> string \<Rightarrow> path \<Rightarrow> string \<Rightarrow> content \<Rightarrow> sync_state
     \<Rightarrow> (error + outcome) \<times> sync_state" where
  "syncFile rt installDir profileName dest name srcBytes st =
     (let destPath = dest @ [name];
          relativePath = path_relative installDir destPath;
          newContent = (if suffix ''.md'' name
                        then substituteTemplatePaths rt srcBytes installDir else srcBytes);
          destExists = fileExists (disk st) destPath;
          manifestEntry = getManifestEntry (manifest st) relativePath
      in if destExists then
           (case manifestEntry of
              Some entry \<Rightarrow>
                (case computeFileHash rt (disk st) destPath of
                   Inl e \<Rightarrow> (Inl e, st)
                 | Inr currentHash \<Rightarrow>
                     if currentHash \<noteq> hash entry
                     then (Inr Preserved, info (''  Preserving user-modified: '' @ name) st)
                     else installFile rt profileName destPath relativePath name srcBytes
                            newContent st)
            | None \<Rightarrow> (Inr Preserved, info (''  Preserving existing: '' @ name) st))
         else installFile rt profileName destPath relativePath name srcBytes newContent st)"

fun copyDirWithManifestTracking ::
  "env \<Rightarrow> path \<Rightarrow> string \<Rightarrow> src_entry list \<Rightarrow> path \<Rightarrow> sync_state
     \<Rightarrow> (error + counts) \<times> sync_state"
and copyEntries ::
  "env \<Rightarrow> path \<Rightarrow> string \<Rightarrow> src_entry list \<Rightarrow> path \<Rightarrow> counts \<Rightarrow> sync_state
     \<Rightarrow> (error + counts) \<times> sync_state" where
  "copyDirWithManifestTracking rt installDir profileName entries dest st =
     (case mkdir_recursive (disk st) dest of
        Inl e \<Rightarrow> (Inl e, st)
      | Inr fs' \<Rightarrow>
          copyEntries rt installDir profileName entries dest
            \<lparr>preserved = 0, installed = 0\<rparr> (st\<lparr>disk := fs'\<rparr>))"
| "copyEntries rt installDir profileName [] dest cnt st = (Inr cnt, st)"
| "copyEntries rt installDir profileName (SrcDir name sub # es) dest cnt st =
     (case copyDirWithManifestTracking rt installDir profileName sub (dest @ [name]) st of
        (Inl e, st') \<Rightarrow> (Inl e, st')
      | (Inr subResult, st') \<Rightarrow>
          copyEntries rt installDir profileName es dest
            \<lparr>preserved = preserved cnt + preserved subResult,
             installed = installed cnt + installed subResult\<rparr> st')"
| "copyEntries rt installDir profileName (SrcFile name srcBytes # es) dest cnt st =
     (case syncFile rt installDir profileName dest name srcBytes st of
        (Inl e, st') \<Rightarrow> (Inl e, st')
      | (Inr Preserved, st') \<Rightarrow>
          copyEntries rt installDir profileName es dest
            (cnt\<lparr>preserved := preserved cnt + 1\<rparr>) st'
      | (Inr Installed, st') \<Rightarrow>
          copyEntries rt installDir profileName es dest
            (cnt\<lparr>installed := installed cnt + 1\<rparr>) st')"


text \<open>
  The loop of \<open>installSkills\<close> over the entries of the profile's skills directory, which
  runs between \<open>loadManifest\<close> and \<open>saveManifest\<close>. \<open>claudeSkillsDir\<close> is the result of
  \<open>getClaudeSkillsDir\<close> (of \<open>paths.js\<close>). A file at the top level is handled as in
  \<open>copyDirWithManifestTracking\<close>, with the source read only once the file is to be
  written; a directory whose name starts with \<open>paid-\<close> is skipped (the branch under
  \<open>if (false)\<close>), any other directory is synchronized.
\<close>

definition installSkillsFile ::
  "env \<Rightarrow> path \<Rightarrow> string \<Rightarrow> path \<Rightarrow> string \<Rightarrow> content \<Rightarrow> sync_state
     \<Rightarrow> (error + outcome) \<times> sync_state" where
  "installSkillsFile rt installDir profileName claudeSkillsDir name srcBytes st =
     (let destPath = claudeSkillsDir @ [name];
          relativePath = path_relative installDir destPath;
          destExists = fileExists (disk st) destPath;
          manifestEntry = getManifestEntry (manifest st) relativePath;
          install =
            (case (if suffix ''.md'' name
                   then writeFile (disk st) destPath
                          (substituteTemplatePaths rt srcBytes installDir)
                   else copyFile srcBytes (disk st) destPath) of
               Inl e \<Rightarrow> (Inl e, st)
             | Inr fs' \<Rightarrow>
                 (case computeFileHash rt fs' destPath of
                    Inl e \<Rightarrow> (Inl e, st\<lparr>disk := fs'\<rparr>)
                  | Inr newHash \<Rightarrow>
                      (Inr Installed,
                       st\<lparr>disk := fs',
                          manifest := addToManifest rt (manifest st) relativePath newHash Nojo
                                        (Some profileName) (currentVersion rt)\<rparr>)))
      in if destExists then
           (case manifestEntry of
              Some entry \<Rightarrow>
                (case computeFileHash rt (disk st) destPath of
                   Inl e \<Rightarrow> (Inl e, st)
                 | Inr currentHash \<Rightarrow>
                     if currentHash \<noteq> hash entry
                     then (Inr Preserved, info (''  Preserving user-modified: '' @ name) st)
                     else install)
            | None \<Rightarrow> (Inr Preserved, info (''  Preserving existing: '' @ name) st))
         else install)"

fun installSkillsEntries ::
  "env \<Rightarrow> path \<Rightarrow> string \<Rightarrow> path \<Rightarrow> src_entry list \<Rightarrow> counts \<Rightarrow> sync_state
     \<Rightarrow> (error + counts) \<times> sync_state" where
  "installSkillsEntries rt installDir profileName claudeSkillsDir [] totals st = (Inr totals, st)"
| "installSkillsEntries rt installDir profileName claudeSkillsDir (SrcFile name srcBytes # es)
     totals st =
     (case installSkillsFile rt installDir profileName claudeSkillsDir name srcBytes st of
        (Inl e, st') \<Rightarrow> (Inl e, st')
      | (Inr Preserved, st') \<Rightarrow>
          installSkillsEntries rt installDir profileName claudeSkillsDir es
            (totals\<lparr>preserved := preserved totals + 1\<rparr>) st'
      | (Inr Installed, st') \<Rightarrow>
          installSkillsEntries rt installDir profileName claudeSkillsDir es
            (totals\<lparr>installed := installed totals + 1\<rparr>) st')"
| "installSkillsEntries rt installDir profileName claudeSkillsDir (SrcDir name sub # es)
     totals st =
     (if prefix ''paid-'' name
      then installSkillsEntries rt installDir profileName claudeSkillsDir es totals st
      else
        (case copyDirWithManifestTracking rt installDir profileName sub
                (claudeSkillsDir @ [name]) st of
           (Inl e, st') \<Rightarrow> (Inl e, st')
         | (Inr r, st') \<Rightarrow>
             installSkillsEntries rt installDir profileName claudeSkillsDir es
               \<lparr>preserved = preserved totals + preserved r,
                installed = installed totals + installed r\<rparr> st'))"


section \<open>Uninstall\<close>

text \<open>
  The uninstall functions work on the disk and print lines; their state is the pair of
  both. A line of \<open>success\<close> is given without its check mark, the line of \<open>warn\<close> without
  the rendering of the error. The string of a path, as it appears in \<open>settings.json\<close>
  and in the printed lines:
\<close>

definition path_string :: "path \<Rightarrow> string" where
  "path_string p = (if p = [] then ''/'' else concat (map (\<lambda>n. ''/'' @ n) p))"

text \<open>
  \<open>removeSkillsPermissions\<close>. The first function is what its \<open>try\<close> block does to the
  parsed settings: the new settings to write, \<open>None\<close> when there is nothing to remove, or
  the TypeError of a property read on \<open>null\<close> or of a \<open>filter\<close> on a value that is not
  an array.
\<close>

definition removeSkillsDirectory :: "path \<Rightarrow> json \<Rightarrow> error + json option" where
  "removeSkillsDirectory claudeSkillsDir settings =
     (if settings = JNull then Inl TypeError
      else if truthy (jget_opt (jget settings ''permissions'') ''additionalDirectories'') then
        (case (settings, jget settings ''permissions'',
               jget_opt (jget settings ''permissions'') ''additionalDirectories'') of
           (JObj skvs, Some (JObj pkvs), Some (JArr dirs)) \<Rightarrow>
             (let dirs' = filter (\<lambda>d. d \<noteq> JStr (path_string claudeSkillsDir)) dirs;
                  pkvs1 = AList.update ''additionalDirectories'' (JArr dirs') pkvs;
                  pkvs2 = (if length dirs' = 0
                           then AList.delete ''additionalDirectories'' pkvs1 else pkvs1);
                  skvs1 = AList.update ''permissions'' (JObj pkvs2) skvs;
                  skvs2 = (if length (map fst pkvs2) = 0
                           then AList.delete ''permissions'' skvs1 else skvs1)
              in Inr (Some (JObj skvs2)))
         | other \<Rightarrow> Inl TypeError)
      else Inr None)"

text \<open>
  An unreadable or unparsable settings file, a TypeError, a failing write: each ends in
  the \<open>catch\<close>, which prints a warning.
\<close>

definition removeSkillsPermissions ::
  "env \<Rightarrow> path \<Rightarrow> path \<Rightarrow> filesystem \<times> string list \<Rightarrow> filesystem \<times> string list" where
  "removeSkillsPermissions rt claudeSkillsDir claudeSettingsFile st =
     (let fs = fst st;
          out1 = snd st @ [''Removing skills directory permissions...''];
          body =
            (case readFile fs claudeSettingsFile of
               Inl e \<Rightarrow> Inl e
             | Inr c \<Rightarrow>
                 (case JSON_parse rt c of
                    None \<Rightarrow> Inl SyntaxError
                  | Some settings \<Rightarrow>
                      (case removeSkillsDirectory claudeSkillsDir settings of
                         Inl e \<Rightarrow> Inl e
                       | Inr None \<Rightarrow> Inr (fs, out1 @ [''No permissions found in settings.json''])
                       | Inr (Some settings') \<Rightarrow>
                           (case writeFile fs claudeSettingsFile (JSON_stringify rt settings') of
                              Inl e \<Rightarrow> Inl e
                            | Inr fs' \<Rightarrow>
                                Inr (fs', out1 @ [''Removed skills directory permissions''])))))
      in case body of
           Inl e \<Rightarrow> (fs, out1 @ [''Could not remove permissions''])
         | Inr r \<Rightarrow> r)"

text \<open>
  \<open>uninstallSkills\<close>: \<open>claudeSkillsDir\<close> and \<open>claudeSettingsFile\<close> are the results of
  \<open>getClaudeSkillsDir\<close> and \<open>getClaudeSettingsFile\<close> for the configured install
  directory.
\<close>

definition uninstallSkills ::
  "env \<Rightarrow> path \<Rightarrow> path \<Rightarrow> filesystem \<times> string list \<Rightarrow> filesystem \<times> string list" where
  "uninstallSkills rt claudeSkillsDir claudeSettingsFile st =
     (let fs = fst st;
          out1 = snd st @ [''Removing nojo skills...''];
          st1 = (case fs_access fs claudeSkillsDir of
                   Inr u \<Rightarrow>
                     (rm_recursive_force fs claudeSkillsDir, out1 @ [''Removed skills directory''])
                 | Inl e \<Rightarrow>
                     (fs, out1 @ [''Skills directory not found (may not have been installed)'']))
      in removeSkillsPermissions rt claudeSkillsDir claudeSettingsFile st1)"

text \<open>\<open>uninstallManifest\<close> of the manifest loader.\<close>

definition uninstallManifest ::
  "path \<Rightarrow> filesystem \<times> string list \<Rightarrow> (error + unit) \<times> filesystem \<times> string list" where
  "uninstallManifest installDir st =
     (let fs = fst st;
          out = snd st;
          manifestPath = getManifestPath installDir;
          claudeDir = installDir @ [''.claude''];
          step1 =
            (if \<not> fileExists fs manifestPath
             then Inr (fs, out @ [''Manifest file not found (may not exist)''])
             else (case unlink fs manifestPath of
                     Inl e \<Rightarrow> Inl e
                   | Inr fs' \<Rightarrow>
                       Inr (fs', out @ [''Manifest file removed: '' @ path_string manifestPath])))
      in case step1 of
           Inl e \<Rightarrow> (Inl e, fs, out)
         | Inr (fs1, out1) \<Rightarrow>
             if fileExists fs1 claudeDir then
               (case readdir fs1 claudeDir of
                  Inl e \<Rightarrow> (Inl e, fs1, out1)
                | Inr entries \<Rightarrow>
                    if length entries = 0 then
                      (case rmdir fs1 claudeDir of
                         Inl e \<Rightarrow> (Inl e, fs1, out1)
                       | Inr fs2 \<Rightarrow> (Inr (), fs2, out1 @ [''Removed empty .claude directory'']))
                    else (Inr (), fs1, out1))
             else (Inr (), fs1, out1))"


section \<open>config.ts\<close>

text \<open>
  The configuration a run works with. The value of an agent in \<open>agents\<close> is kept as the
  JSON value it is on disk, since the schema leaves properties of it optional and
  keeps unknown ones.
\<close>

record Config =
  cfgAutoupdate :: "string option"
  cfgInstallDir :: string
  cfgAgents :: "(string \<times> json) list option"
  cfgVersion :: "string option"

definition getConfigPath :: "path \<Rightarrow> path" where
  "getConfigPath installDir = installDir @ [''.claude'', ''.nojo-config.json'']"

definition getInstalledAgents :: "Config \<Rightarrow> string list" where
  "getInstalledAgents config =
     (let agents = map fst (case cfgAgents config of None \<Rightarrow> [] | Some kvs \<Rightarrow> kvs)
      in if length agents > 0 then agents else [''claude-code''])"

definition getAgentProfile :: "Config \<Rightarrow> string \<Rightarrow> json option" where
  "getAgentProfile config agentName =
     (case cfgAgents config of
        None \<Rightarrow> None
      | Some kvs \<Rightarrow>
          (case jget_opt (map_of kvs agentName) ''profile'' of
             Some JNull \<Rightarrow> None
           | r \<Rightarrow> r))"

text \<open>
  \<open>validateConfigSchema\<close>: the validator that Ajv compiles from \<open>configSchema\<close> with the
  options \<open>useDefaults\<close> and \<open>removeAdditional\<close>, keyword by keyword. The result is the
  validated clone, or \<open>None\<close> when the validation fails.
\<close>

definition validProfile :: "json \<Rightarrow> bool" where
  "validProfile v =
     (case v of
        JNull \<Rightarrow> True
      | JObj ps \<Rightarrow>
          (case map_of ps ''baseProfile'' of
             None \<Rightarrow> True | Some (JStr b) \<Rightarrow> True | Some w \<Rightarrow> False)
      | w \<Rightarrow> False)"

definition validAgent :: "json \<Rightarrow> bool" where
  "validAgent v =
     (case v of
        JObj ps \<Rightarrow> (case map_of ps ''profile'' of None \<Rightarrow> True | Some p \<Rightarrow> validProfile p)
      | w \<Rightarrow> False)"

definition validString :: "json option \<Rightarrow> bool" where
  "validString v = (case v of None \<Rightarrow> True | Some (JStr s) \<Rightarrow> True | Some w \<Rightarrow> False)"

text \<open>The keywords \<open>type\<close>, \<open>enum\<close>, \<open>properties\<close> and \<open>additionalProperties\<close> of the schema.\<close>

definition schemaValid :: "(string \<times> json) list \<Rightarrow> bool" where
  "schemaValid kvs \<longleftrightarrow>
     (case map_of kvs ''autoupdate'' of
        None \<Rightarrow> True
      | Some (JStr a) \<Rightarrow> a = ''enabled'' \<or> a = ''disabled''
      | Some w \<Rightarrow> False) \<and>
     (case map_of kvs ''profile'' of None \<Rightarrow> True | Some p \<Rightarrow> validProfile p) \<and>
     validString (map_of kvs ''installDir'') \<and>
     (case map_of kvs ''agents'' of
        None \<Rightarrow> True
      | Some (JObj as) \<Rightarrow> list_all (\<lambda>(k, a). validAgent a) as
      | Some w \<Rightarrow> False) \<and>
     validString (map_of kvs ''version'')"

text \<open>\<open>removeAdditional\<close>: the properties the schema does not name are dropped.\<close>

definition removeAdditional :: "(string \<times> json) list \<Rightarrow> (string \<times> json) list" where
  "removeAdditional kvs =
     filter (\<lambda>(k, w). k \<in> set [''autoupdate'', ''profile'', ''installDir'', ''agents'', ''version''])
       kvs"

text \<open>\<open>useDefaults\<close>: a missing \<open>autoupdate\<close> becomes \<open>disabled\<close>.\<close>

definition useDefaults :: "(string \<times> json) list \<Rightarrow> (string \<times> json) list" where
  "useDefaults kvs =
     (if map_of kvs ''autoupdate'' = None then kvs @ [(''autoupdate'', JStr ''disabled'')] else kvs)"

definition validateConfigSchema :: "json \<Rightarrow> json option" where
  "validateConfigSchema v =
     (case v of
        JObj kvs \<Rightarrow>
          if schemaValid kvs then Some (JObj (useDefaults (removeAdditional kvs))) else None
      | w \<Rightarrow> None)"

definition jstring :: "json option \<Rightarrow> string option" where
  "jstring v = (case v of Some (JStr s) \<Rightarrow> Some s | w \<Rightarrow> None)"

text \<open>
  \<open>loadConfig\<close>; the deep clone \<open>JSON.parse(JSON.stringify(rawConfig))\<close> of a parsed value
  is the value. \<open>configFromValidated\<close> is the part "Build the Config result from
  validated data" with the conversion of the legacy profile; it is applied to a value
  that has passed the schema, where \<open>agents\<close> is absent or an object and \<open>autoupdate\<close>,
  \<open>installDir\<close>, \<open>version\<close> and \<open>baseProfile\<close> are absent or strings.
\<close>

definition configFromValidated :: "json \<Rightarrow> path \<Rightarrow> Config" where
  "configFromValidated validated installDir =
     (let result =
            \<lparr>cfgAutoupdate = jstring (jget validated ''autoupdate''),
             cfgInstallDir =
               (case jstring (jget validated ''installDir'') of
                  Some d \<Rightarrow> d
                | None \<Rightarrow> path_string installDir),
             cfgAgents = None,
             cfgVersion = jstring (jget validated ''version'')\<rparr>
      in case jget validated ''agents'' of
           Some (JObj as) \<Rightarrow> result\<lparr>cfgAgents := Some as\<rparr>
         | w \<Rightarrow>
             (case jget_opt (jget validated ''profile'') ''baseProfile'' of
                Some (JStr b) \<Rightarrow>
                  result\<lparr>cfgAgents :=
                    Some [(''claude-code'',
                           JObj [(''profile'', JObj [(''baseProfile'', JStr b)])])]\<rparr>
              | w' \<Rightarrow> result))"

definition loadConfig :: "env \<Rightarrow> filesystem \<Rightarrow> path \<Rightarrow> Config option" where
  "loadConfig rt fs installDir =
     (let configPath = getConfigPath installDir
      in case fs_access fs configPath of
           Inl e \<Rightarrow> None
         | Inr u \<Rightarrow>
             (case readFile fs configPath of
                Inl e \<Rightarrow> None
              | Inr c \<Rightarrow>
                  (case JSON_parse rt c of
                     None \<Rightarrow> None
                   | Some rawConfig \<Rightarrow>
                       if rawConfig = JNull \<or> typeof (Some rawConfig) \<noteq> ''object'' then None
                       else
                         (case validateConfigSchema rawConfig of
                            None \<Rightarrow> None
                          | Some validated \<Rightarrow>
                              (let result = configFromValidated validated installDir
                               in if cfgAgents result \<noteq> None \<or> cfgAutoupdate result \<noteq> None
                                  then Some result else None)))))"


section \<open>Notions used in the statements\<close>

text \<open>
  The content the synchronizer writes for a source file, and the state after the engine
  has written content \<open>c\<close> to path \<open>p\<close> and tracked it under key \<open>k\<close>.
\<close>

definition finalContent :: "env \<Rightarrow> path \<Rightarrow> string \<Rightarrow> content \<Rightarrow> content" where
  "finalContent rt installDir name srcBytes =
     (if suffix ''.md'' name then substituteTemplatePaths rt srcBytes installDir else srcBytes)"

definition engineWrite :: "env \<Rightarrow> string \<Rightarrow> path \<Rightarrow> path \<Rightarrow> content \<Rightarrow> sync_state \<Rightarrow> sync_state" where
  "engineWrite rt profileName p k c st =
     st\<lparr>disk := AList.update p (File c) (disk st),
        manifest := addToManifest rt (manifest st) k (sha256 rt c) Nojo (Some profileName)
                      (currentVersion rt)\<rparr>"


text \<open>
  The names of a directory listing are distinct, at every level of the source tree.
\<close>

fun entry_name :: "src_entry \<Rightarrow> string" where
  "entry_name (SrcFile name srcBytes) = name"
| "entry_name (SrcDir name sub) = name"

fun distinct_names :: "src_entry list \<Rightarrow> bool"
and distinct_names_in :: "src_entry \<Rightarrow> bool" where
  "distinct_names [] = True"
| "distinct_names (e # es) =
     (entry_name e \<notin> set (map entry_name es) \<and> distinct_names_in e \<and> distinct_names es)"
| "distinct_names_in (SrcFile name srcBytes) = True"
| "distinct_names_in (SrcDir name sub) = distinct_names sub"

text \<open>
  What the synchronizer reads of a destination path: the node on disk and the hash of
  its manifest entry.
\<close>

definition hashOf :: "sync_state \<Rightarrow> path \<Rightarrow> string option" where
  "hashOf s k = map_option hash (getManifestEntry (manifest s) k)"

definition observed :: "path \<Rightarrow> sync_state \<Rightarrow> path \<Rightarrow> node option \<times> string option" where
  "observed installDir s q = (map_of (disk s) q, hashOf s (path_relative installDir q))"

text \<open>Two states with the same files on disk and the same hashes in the manifest.\<close>

definition sameView :: "sync_state \<Rightarrow> sync_state \<Rightarrow> bool" where
  "sameView s t \<longleftrightarrow> map_of (disk t) = map_of (disk s) \<and> (\<forall>k. hashOf t k = hashOf s k)"

text \<open>
  The destination paths that a run counts as preserved, in the order in which the run
  meets them: one for each increment of the counter \<open>preserved\<close>.
\<close>

fun preservedFiles ::
  "env \<Rightarrow> path \<Rightarrow> string \<Rightarrow> src_entry list \<Rightarrow> path \<Rightarrow> sync_state \<Rightarrow> path list"
and preservedEntries ::
  "env \<Rightarrow> path \<Rightarrow> string \<Rightarrow> src_entry list \<Rightarrow> path \<Rightarrow> sync_state \<Rightarrow> path list" where
  "preservedFiles rt installDir profileName entries dest st =
     (case mkdir_recursive (disk st) dest of
        Inl e \<Rightarrow> []
      | Inr fs' \<Rightarrow> preservedEntries rt installDir profileName entries dest (st\<lparr>disk := fs'\<rparr>))"
| "preservedEntries rt installDir profileName [] dest st = []"
| "preservedEntries rt installDir profileName (SrcDir name sub # es) dest st =
     preservedFiles rt installDir profileName sub (dest @ [name]) st @
     (case copyDirWithManifestTracking rt installDir profileName sub (dest @ [name]) st of
        (Inl e, st') \<Rightarrow> []
      | (Inr r, st') \<Rightarrow> preservedEntries rt installDir profileName es dest st')"
| "preservedEntries rt installDir profileName (SrcFile name srcBytes # es) dest st =
     (case syncFile rt installDir profileName dest name srcBytes st of
        (Inl e, st') \<Rightarrow> []
      | (Inr Preserved, st') \<Rightarrow>
          (dest @ [name]) # preservedEntries rt installDir profileName es dest st'
      | (Inr Installed, st') \<Rightarrow> preservedEntries rt installDir profileName es dest st')"

section \<open>Example data\<close>

text \<open>
  A runtime for the examples: a stand-in digest, a template substitution with the one
  placeholder \<open>~\<close> for the install directory, and \<open>JSON.parse\<close> and \<open>JSON.stringify\<close>
  given on the texts the examples use.
\<close>

definition manifestNullFilesText :: content where
  \<open>manifestNullFilesText = ''{"schemaVersion":1,"files":null}''\<close>

definition manifestNullFiles :: json where
  "manifestNullFiles = JObj [(''schemaVersion'', JNum 1), (''files'', JNull)]"

definition oldManifestText :: content where
  \<open>oldManifestText = ''{"schemaVersion":1,"nojoVersion":"0.9.0","createdAt":"t0","updatedAt":"t0","files":{".claude/skills/alpha/S.md":{"hash":"h"}}}''\<close>

definition oldManifestProps :: "(string \<times> json) list" where
  "oldManifestProps =
     [(''schemaVersion'', JNum 1), (''nojoVersion'', JStr ''0.9.0''), (''createdAt'', JStr ''t0''),
      (''updatedAt'', JStr ''t0''),
      (''files'', JObj [(''.claude/skills/alpha/S.md'', JObj [(''hash'', JStr ''h'')])])]"

definition newManifestText :: content where
  \<open>newManifestText = ''{"schemaVersion":1,"nojoVersion":"1.0.0","createdAt":"t0","updatedAt":"2025-01-01T00:00:00.000Z","files":{".claude/skills/alpha/S.md":{"hash":"h"}}}''\<close>

definition newManifestProps :: "(string \<times> json) list" where
  "newManifestProps =
     [(''schemaVersion'', JNum 1), (''nojoVersion'', JStr ''1.0.0''), (''createdAt'', JStr ''t0''),
      (''updatedAt'', JStr ''2025-01-01T00:00:00.000Z''),
      (''files'', JObj [(''.claude/skills/alpha/S.md'', JObj [(''hash'', JStr ''h'')])])]"

definition legacyConfigText :: content where
  \<open>legacyConfigText = ''{"profile":{"baseProfile":"amol"}}''\<close>

definition legacyConfig :: json where
  "legacyConfig = JObj [(''profile'', JObj [(''baseProfile'', JStr ''amol'')])]"

definition bothConfigText :: content where
  \<open>bothConfigText = ''{"profile":{"baseProfile":"legacy-profile"},"agents":{"claude-code":{"profile":{"baseProfile":"new-profile"}}}}''\<close>

definition bothConfig :: json where
  "bothConfig =
     JObj [(''profile'', JObj [(''baseProfile'', JStr ''legacy-profile'')]),
           (''agents'', JObj [(''claude-code'',
                               JObj [(''profile'', JObj [(''baseProfile'', JStr ''new-profile'')])])])]"

definition parse0 :: "content \<Rightarrow> json option" where
  "parse0 c =
     (if c = manifestNullFilesText then Some manifestNullFiles
      else if c = oldManifestText then Some (JObj oldManifestProps)
      else if c = newManifestText then Some (JObj newManifestProps)
      else if c = legacyConfigText then Some legacyConfig
      else if c = bothConfigText then Some bothConfig
      else None)"

definition rt0 :: env where
  "rt0 = \<lparr>sha256 = (\<lambda>c. ''sha256:'' @ c),
          substituteTemplatePaths =
            (\<lambda>c d. concat (map (\<lambda>ch. if ch = CHR ''~'' then path_string d else [ch]) c)),
          getCurrentPackageVersion = Some ''1.0.0'',
          now = ''2025-01-01T00:00:00.000Z'',
          JSON_parse = parse0,
          JSON_stringify = (\<lambda>j. if j = JObj oldManifestProps then oldManifestText
                                else if j = JObj newManifestProps then newManifestText
                                else ''{}'')\<rparr>"

definition home :: path where
  "home = [''home'']"

definition claudeDir0 :: filesystem where
  "claudeDir0 = [([''home''], Dir), ([''home'', ''.claude''], Dir)]"

definition emptyAgentsConfig :: Config where
  "emptyAgentsConfig =
     \<lparr>cfgAutoupdate = None, cfgInstallDir = ''/test'', cfgAgents = Some [], cfgVersion = None\<rparr>"

definition twoAgentsConfig :: Config where
  "twoAgentsConfig =
     \<lparr>cfgAutoupdate = None, cfgInstallDir = ''/test'',
      cfgAgents = Some [(''claude-code'', JObj [(''profile'', JObj [(''baseProfile'', JStr ''senior-swe'')])]),
                        (''cursor-agent'', JObj [(''profile'', JObj [(''baseProfile'', JStr ''documenter'')])])],
      cfgVersion = None\<rparr>"

definition manifestFile0 :: path where
  "manifestFile0 = [''home'', ''.claude'', ''.nojo-manifest.json'']"

definition nullFilesDisk :: filesystem where
  "nullFilesDisk = claudeDir0 @ [(manifestFile0, File manifestNullFilesText)]"

definition oldManifestDisk :: filesystem where
  "oldManifestDisk = claudeDir0 @ [(manifestFile0, File oldManifestText)]"

definition configFile0 :: path where
  "configFile0 = [''home'', ''.claude'', ''.nojo-config.json'']"

definition legacyDisk :: filesystem where
  "legacyDisk = claudeDir0 @ [(configFile0, File legacyConfigText)]"

definition bothDisk :: filesystem where
  "bothDisk = claudeDir0 @ [(configFile0, File bothConfigText)]"

definition skillsDir0 :: path where
  "skillsDir0 = [''home'', ''.claude'', ''skills'']"

definition settingsFile0 :: path where
  "settingsFile0 = [''home'', ''.claude'', ''settings.json'']"

definition notesFile :: path where
  "notesFile = [''home'', ''.claude'', ''skills'', ''notes.txt'']"

text \<open>A skills directory that holds a file the engine never wrote, and a manifest.\<close>

definition notesDisk :: filesystem where
  "notesDisk = claudeDir0 @ [(skillsDir0, Dir), (notesFile, File ''my notes''),
                             (manifestFile0, File oldManifestText)]"

text \<open>
  The skill file \<open>S.md\<close> of profile \<open>alpha\<close>: installed with content \<open>v1\<close>, then edited
  by the user.
\<close>

definition alphaDir :: path where
  "alphaDir = [''home'', ''.claude'', ''skills'', ''alpha'']"

definition skillFile :: path where
  "skillFile = [''home'', ''.claude'', ''skills'', ''alpha'', ''S.md'']"

definition skillKey :: path where
  "skillKey = [''.claude'', ''skills'', ''alpha'', ''S.md'']"

definition skillEntry :: ManifestEntry where
  "skillEntry = \<lparr>path = skillKey, hash = ''sha256:v1'', source = Nojo, profile = Some ''alpha'',
                 version = ''1.0.0'', installedAt = ''2025-01-01T00:00:00.000Z''\<rparr>"

definition manifest0 :: Manifest where
  "manifest0 = \<lparr>schemaVersion = 1, nojoVersion = ''1.0.0'', createdAt = ''2025-01-01T00:00:00.000Z'',
                 updatedAt = ''2025-01-01T00:00:00.000Z'', files = [], preInstallSnapshot = None\<rparr>"

definition editedState :: sync_state where
  "editedState =
     \<lparr>disk = claudeDir0 @ [(skillsDir0, Dir), (alphaDir, Dir), (skillFile, File ''v1-edited'')],
      manifest = manifest0\<lparr>files := [(skillKey, skillEntry)]\<rparr>,
      console = []\<rparr>"

text \<open>A file \<open>notes.txt\<close> that lies in the destination before the first install.\<close>

definition untrackedState :: sync_state where
  "untrackedState =
     \<lparr>disk = claudeDir0 @ [(skillsDir0, Dir), (alphaDir, Dir),
                            (alphaDir @ [''notes.txt''], File ''my notes'')],
      manifest = manifest0,
      console = []\<rparr>"

text \<open>The destination directory of profile \<open>alpha\<close> before anything is installed.\<close>

definition freshState :: sync_state where
  "freshState =
     \<lparr>disk = claudeDir0 @ [(skillsDir0, Dir), (alphaDir, Dir)],
      manifest = manifest0,
      console = []\<rparr>"

text \<open>
  A destination with an edited tracked file and an untracked file, and a source tree
  that ships both and a directory with a template; and the runtime of a later run.
\<close>

definition mixedState :: sync_state where
  "mixedState =
     \<lparr>disk = claudeDir0 @ [(skillsDir0, Dir), (alphaDir, Dir), (skillFile, File ''v1-edited''),
                            (alphaDir @ [''notes.txt''], File ''my notes'')],
      manifest = manifest0\<lparr>files := [(skillKey, skillEntry)]\<rparr>,
      console = []\<rparr>"

definition alphaTree :: "src_entry list" where
  "alphaTree =
     [SrcFile ''S.md'' ''v2'', SrcFile ''notes.txt'' ''shipped'',
      SrcDir ''docs'' [SrcFile ''README.md'' ''see ~/skills'']]"

definition rt1 :: env where
  "rt1 = rt0\<lparr>now := ''2025-02-02T00:00:00.000Z''\<rparr>"

section \<open>Facts about the file system\<close>

lemma set_butlast_distinct:
  assumes "distinct xs" "xs \<noteq> []"
  shows "set (butlast xs) = set xs - {last xs}"
proof -
  have eq: "xs = butlast xs @ [last xs]" using assms(2) by simp
  have "distinct (butlast xs @ [last xs])" using assms(1) eq by metis
  then have "last xs \<notin> set (butlast xs)" by simp
  moreover have "set xs = set (butlast xs) \<union> {last xs}"
    by (metis eq set_append list.simps(15) empty_set)
  ultimately show ?thesis by auto
qed

lemma set_ancestors: "set (ancestors p) = {q. strict_prefix q p}"
  by (auto simp: ancestors_def set_butlast_distinct distinct_prefixes strict_prefix_def)

lemma set_tl_prefixes: "set (tl (prefixes p)) = {q. prefix q p \<and> q \<noteq> []}"
  by (cases p) (auto simp: prefix_Cons)

lemma resolve_parent_None:
  "resolve_parent fs p = None \<longleftrightarrow> (\<forall>q. strict_prefix q p \<longrightarrow> is_dir fs q)"
proof -
  have "resolve_parent fs p = None \<longleftrightarrow> filter (\<lambda>q. \<not> is_dir fs q) (ancestors p) = []"
    by (simp add: resolve_parent_def split: list.splits)
  then show ?thesis by (auto simp: filter_empty_conv set_ancestors)
qed

lemma readFile_Inr:
  "readFile fs p = Inr c \<longleftrightarrow> resolve_parent fs p = None \<and> p \<noteq> [] \<and> map_of fs p = Some (File c)"
  by (auto simp: readFile_def stat_def split: option.splits sum.splits node.splits if_splits)

lemma fileExists_iff:
  "fileExists fs p \<longleftrightarrow> resolve_parent fs p = None \<and> (p = [] \<or> map_of fs p \<noteq> None)"
  by (auto simp: fileExists_def fs_access_def stat_def split: option.splits sum.splits if_splits)

lemma writeFile_Inr:
  "writeFile fs p c = Inr fs' \<longleftrightarrow>
     resolve_parent fs p = None \<and> \<not> is_dir fs p \<and> fs' = AList.update p (File c) fs"
  by (auto simp: writeFile_def split: option.splits)

lemma mkdirs_map_of:
  "mkdirs fs qs = Inr fs' \<Longrightarrow> map_of fs' q = (if q \<in> set qs then Some Dir else map_of fs q)"
proof (induction qs arbitrary: fs)
  case Nil
  then show ?case by simp
next
  case (Cons a qs)
  then show ?case
    by (auto simp: update_conv' split: option.splits node.splits if_splits)
qed

lemma mkdirs_file_fails:
  "q \<in> set qs \<Longrightarrow> map_of fs q = Some (File c) \<Longrightarrow> \<exists>e. mkdirs fs qs = Inl e"
proof (induction qs arbitrary: fs)
  case Nil
  then show ?case by simp
next
  case (Cons a qs)
  show ?case
  proof (cases "a = q")
    case True
    then show ?thesis using Cons.prems by simp
  next
    case False
    then have "q \<in> set qs" using Cons.prems by simp
    moreover have "map_of (AList.update a Dir fs) q = Some (File c)"
      using False Cons.prems by (simp add: update_conv')
    ultimately show ?thesis using Cons.IH Cons.prems(2)
      by (auto split: option.splits node.splits)
  qed
qed

lemma mkdirs_no_file:
  "mkdirs fs qs = Inr fs' \<Longrightarrow> q \<in> set qs \<Longrightarrow> map_of fs q \<noteq> Some (File c)"
  using mkdirs_file_fails [of q qs fs c] by auto

lemma mkdirs_keeps:
  "mkdirs fs qs = Inr fs' \<Longrightarrow> map_of fs q = Some n \<Longrightarrow> map_of fs' q = Some n"
  using mkdirs_map_of [of fs qs fs' q] mkdirs_no_file [of fs qs fs' q]
  by (cases n) auto

lemma mkdir_recursive_map_of:
  "mkdir_recursive fs p = Inr fs' \<Longrightarrow>
     map_of fs' q = (if prefix q p \<and> q \<noteq> [] then Some Dir else map_of fs q)"
  unfolding mkdir_recursive_def using mkdirs_map_of [of fs "tl (prefixes p)" fs' q]
  by (simp add: set_tl_prefixes)

lemma mkdir_recursive_keeps:
  "mkdir_recursive fs p = Inr fs' \<Longrightarrow> map_of fs q = Some n \<Longrightarrow> map_of fs' q = Some n"
  unfolding mkdir_recursive_def by (rule mkdirs_keeps)

lemma path_relative_append: "path_relative d (d @ r) = r"
  by (induction d) auto

lemma is_dir_update_File:
  "p \<noteq> [] \<Longrightarrow> is_dir (AList.update p (File c) fs) q \<longleftrightarrow> is_dir fs q \<and> q \<noteq> p"
  by (auto simp: is_dir_def update_conv')

lemma writeFile_not_root: "writeFile fs p c = Inr fs' \<Longrightarrow> p \<noteq> []"
  by (auto simp: writeFile_Inr is_dir_def)

lemma readFile_after_write:
  assumes "writeFile fs p c = Inr fs'"
  shows "readFile fs' p = Inr c"
proof -
  have p: "p \<noteq> []" using assms by (rule writeFile_not_root)
  have "resolve_parent fs' p = None"
    using assms p by (auto simp: writeFile_Inr resolve_parent_None is_dir_update_File)
  then show ?thesis using assms p by (simp add: readFile_Inr writeFile_Inr update_conv')
qed

lemma installFile_result:
  assumes "installFile rt profileName destPath relativePath name srcBytes newContent st = (r, st')"
  shows "(\<exists>e. r = Inl e \<and> st' = st) \<or>
         (\<exists>c. c = (if suffix ''.md'' name then newContent else srcBytes) \<and>
              r = Inr Installed \<and>
              writeFile (disk st) destPath c = Inr (AList.update destPath (File c) (disk st)) \<and>
              st' = st\<lparr>disk := AList.update destPath (File c) (disk st),
                        manifest := addToManifest rt (manifest st) relativePath (sha256 rt c) Nojo
                                      (Some profileName) (currentVersion rt)\<rparr>)"
proof (cases "writeFile (disk st) destPath (if suffix ''.md'' name then newContent else srcBytes)")
  case (Inl e)
  then show ?thesis using assms by (auto simp: installFile_def copyFile_def split: if_splits)
next
  case (Inr fs')
  then have "readFile fs' destPath = Inr (if suffix ''.md'' name then newContent else srcBytes)"
    by (rule readFile_after_write)
  moreover have "fs' = AList.update destPath (File (if suffix ''.md'' name then newContent else srcBytes)) (disk st)"
    using Inr by (simp add: writeFile_Inr)
  ultimately show ?thesis using assms Inr
    by (auto simp: installFile_def copyFile_def computeFileHash_def split: if_splits)
qed

lemma syncFile_result:
  assumes "syncFile rt installDir profileName dest name srcBytes st = (r, st')"
  shows "(\<exists>e. r = Inl e \<and> st' = st) \<or>
         (\<exists>msg. r = Inr Preserved \<and> st' = info msg st) \<or>
         (r = Inr Installed \<and>
          resolve_parent (disk st) (dest @ [name]) = None \<and> \<not> is_dir (disk st) (dest @ [name]) \<and>
          st' = engineWrite rt profileName (dest @ [name]) (path_relative installDir (dest @ [name]))
                  (finalContent rt installDir name srcBytes) st)"
proof -
  let ?p = "dest @ [name]"
  let ?k = "path_relative installDir ?p"
  let ?c = "finalContent rt installDir name srcBytes"
  have inst: "?thesis" if "installFile rt profileName ?p ?k name srcBytes ?c st = (r, st')"
    using installFile_result [OF that]
    by (auto simp: engineWrite_def finalContent_def writeFile_Inr)
  show ?thesis
    using assms inst
    by (auto simp: syncFile_def Let_def finalContent_def split: if_splits option.splits sum.splits)
qed

lemma copy_invariant_aux:
  "(\<And>st d fs'. I st \<Longrightarrow> prefix dest0 d \<Longrightarrow> mkdir_recursive (disk st) d = Inr fs' \<Longrightarrow> I (st\<lparr>disk := fs'\<rparr>)) \<Longrightarrow>
   (\<And>st d name srcBytes. I st \<Longrightarrow> prefix dest0 d \<Longrightarrow>
       I (snd (syncFile rt installDir profileName d name srcBytes st))) \<Longrightarrow>
   prefix dest0 dest \<Longrightarrow> I st \<Longrightarrow>
   I (snd (copyDirWithManifestTracking rt installDir profileName entries dest st))"
  "(\<And>st d fs'. I st \<Longrightarrow> prefix dest0 d \<Longrightarrow> mkdir_recursive (disk st) d = Inr fs' \<Longrightarrow> I (st\<lparr>disk := fs'\<rparr>)) \<Longrightarrow>
   (\<And>st d name srcBytes. I st \<Longrightarrow> prefix dest0 d \<Longrightarrow>
       I (snd (syncFile rt installDir profileName d name srcBytes st))) \<Longrightarrow>
   prefix dest0 dest \<Longrightarrow> I st \<Longrightarrow>
   I (snd (copyEntries rt installDir profileName entries dest cnt st))"
proof (induction rt installDir profileName entries dest st
         and rt installDir profileName entries dest cnt st
       rule: copyDirWithManifestTracking_copyEntries.induct)
  case (1 rt installDir profileName entries dest st)
  show ?case
  proof (cases "mkdir_recursive (disk st) dest")
    case (Inl e)
    then show ?thesis using "1.prems" by simp
  next
    case (Inr fs')
    have "I (st\<lparr>disk := fs'\<rparr>)" using "1.prems" Inr by blast
    then show ?thesis using "1.IH" [OF Inr "1.prems"(1,2,3)] Inr by simp
  qed
next
  case (2 rt installDir profileName dest cnt st)
  then show ?case by simp
next
  case (3 rt installDir profileName name sub es dest cnt st)
  obtain r st' where run: "copyDirWithManifestTracking rt installDir profileName sub (dest @ [name]) st = (r, st')"
    by (cases "copyDirWithManifestTracking rt installDir profileName sub (dest @ [name]) st")
  have pre: "prefix dest0 (dest @ [name])" using "3.prems"(3) by (simp add: prefix_prefix)
  have I': "I st'" using "3.IH"(1) [OF "3.prems"(1,2) pre "3.prems"(4)] run by simp
  show ?case
  proof (cases r)
    case (Inl e)
    then show ?thesis using run I' by simp
  next
    case (Inr b)
    show ?thesis
      using "3.IH"(2) [OF run [symmetric] Inr "3.prems"(1,2,3) I'] run Inr by simp
  qed
next
  case (4 rt installDir profileName name srcBytes es dest cnt st)
  obtain r st' where run: "syncFile rt installDir profileName dest name srcBytes st = (r, st')"
    by (cases "syncFile rt installDir profileName dest name srcBytes st")
  have I': "I st'" using "4.prems"(2) [OF "4.prems"(4,3), of name srcBytes] run by simp
  show ?case
  proof (cases r)
    case (Inl e)
    then show ?thesis using run I' by simp
  next
    case (Inr b)
    show ?thesis
    proof (cases b)
      case Preserved
      show ?thesis
        using "4.IH"(1) [OF run [symmetric] Inr Preserved "4.prems"(1,2,3) I'] run Inr Preserved by simp
    next
      case Installed
      show ?thesis
        using "4.IH"(2) [OF run [symmetric] Inr Installed "4.prems"(1,2,3) I'] run Inr Installed by simp
    qed
  qed
qed

lemma path_relative_inj:
  assumes "prefix d p" "prefix d q" "path_relative d p = path_relative d q"
  shows "p = q"
proof -
  obtain rp rq where "p = d @ rp" "q = d @ rq" using assms(1,2) by (auto simp: prefix_def)
  then show ?thesis using assms(3) by (simp add: path_relative_append)
qed

lemma resolve_parent_update_File:
  "resolve_parent fs p = None \<Longrightarrow> \<not> is_dir fs q \<Longrightarrow>
   resolve_parent (AList.update q (File c) fs) p = None"
  by (auto simp: resolve_parent_None is_dir_def update_conv')

lemma resolve_parent_mkdir:
  "resolve_parent fs p = None \<Longrightarrow> mkdir_recursive fs d = Inr fs' \<Longrightarrow> resolve_parent fs' p = None"
  by (auto simp: resolve_parent_None is_dir_def dest: mkdir_recursive_keeps)

lemma syncFile_untracked:
  assumes "fileExists (disk st) (dest @ [name])"
      and "getManifestEntry (manifest st) (path_relative installDir (dest @ [name])) = None"
  shows "syncFile rt installDir profileName dest name srcBytes st =
           (Inr Preserved, info (''  Preserving existing: '' @ name) st)"
  using assms by (simp add: syncFile_def Let_def)

lemma syncFile_modified:
  assumes "readFile (disk st) (dest @ [name]) = Inr c"
      and "getManifestEntry (manifest st) (path_relative installDir (dest @ [name])) = Some e"
      and "sha256 rt c \<noteq> hash e"
  shows "syncFile rt installDir profileName dest name srcBytes st =
           (Inr Preserved, info (''  Preserving user-modified: '' @ name) st)"
proof -
  have "fileExists (disk st) (dest @ [name])"
    using assms(1) by (simp add: readFile_Inr fileExists_iff)
  then show ?thesis using assms by (simp add: syncFile_def Let_def computeFileHash_def)
qed

lemma getManifestEntry_engineWrite:
  "getManifestEntry (manifest (engineWrite rt profileName q k c st)) k' =
     (if k' = k then Some \<lparr>path = k, hash = sha256 rt c, source = Nojo, profile = Some profileName,
                             version = currentVersion rt, installedAt = now rt\<rparr>
      else getManifestEntry (manifest st) k')"
  by (simp add: getManifestEntry_def engineWrite_def addToManifest_def update_conv')

lemma disk_engineWrite [simp]:
  "disk (engineWrite rt profileName q k c st) = AList.update q (File c) (disk st)"
  by (simp add: engineWrite_def)

lemma console_engineWrite [simp]: "console (engineWrite rt profileName q k c st) = console st"
  by (simp add: engineWrite_def)

lemma info_simps [simp]:
  "disk (info msg st) = disk st" "manifest (info msg st) = manifest st"
  "console (info msg st) = console st @ [msg]"
  by (simp_all add: info_def)

lemma modified_invariant_syncFile:
  assumes inst: "prefix installDir d" "prefix installDir p"
      and rd: "readFile (disk st) p = Inr c"
      and en: "getManifestEntry (manifest st) (path_relative installDir p) = Some e"
      and neq: "sha256 rt c \<noteq> hash e"
      and run: "syncFile rt installDir profileName d name srcBytes st = (r, st')"
  shows "readFile (disk st') p = Inr c \<and>
         getManifestEntry (manifest st') (path_relative installDir p) = Some e"
proof (cases "d @ [name] = p")
  case True
  have "syncFile rt installDir profileName d name srcBytes st =
          (Inr Preserved, info (''  Preserving user-modified: '' @ name) st)"
    using rd en neq True by (intro syncFile_modified) simp_all
  then have "st' = info (''  Preserving user-modified: '' @ name) st" using run by simp
  then show ?thesis using rd en by simp
next
  case False
  have pre: "prefix installDir (d @ [name])" using inst(1) by (simp add: prefix_prefix)
  have k: "path_relative installDir p \<noteq> path_relative installDir (d @ [name])"
    using path_relative_inj [OF pre inst(2)] False by auto
  consider (same) "st' = st" | (msg) m where "st' = info m st"
    | (wr) "\<not> is_dir (disk st) (d @ [name])"
        "st' = engineWrite rt profileName (d @ [name]) (path_relative installDir (d @ [name]))
                  (finalContent rt installDir name srcBytes) st"
    using syncFile_result [OF run] by blast
  then show ?thesis
  proof cases
    case same
    then show ?thesis using rd en by simp
  next
    case msg
    then show ?thesis using rd en by simp
  next
    case wr
    have "readFile (disk st') p = Inr c"
      using rd wr False by (simp add: readFile_Inr resolve_parent_update_File update_conv')
    moreover have "getManifestEntry (manifest st') (path_relative installDir p) = Some e"
      using en k wr(2) by (simp add: getManifestEntry_engineWrite)
    ultimately show ?thesis by simp
  qed
qed

lemma modified_invariant:
  assumes "prefix installDir dest" "prefix installDir p"
      and "readFile (disk st) p = Inr c"
      and "getManifestEntry (manifest st) (path_relative installDir p) = Some e"
      and "sha256 rt c \<noteq> hash e"
  shows "readFile (disk (snd (copyDirWithManifestTracking rt installDir profileName entries dest st))) p = Inr c \<and>
         getManifestEntry (manifest (snd (copyDirWithManifestTracking rt installDir profileName entries dest st)))
           (path_relative installDir p) = Some e"
proof -
  let ?I = "\<lambda>s. readFile (disk s) p = Inr c \<and>
                 getManifestEntry (manifest s) (path_relative installDir p) = Some e"
  have mk: "?I (s\<lparr>disk := fs'\<rparr>)"
    if "?I s" "prefix dest d" "mkdir_recursive (disk s) d = Inr fs'" for s d fs'
  proof -
    have "resolve_parent fs' p = None"
      using resolve_parent_mkdir [OF _ that(3), of p] that(1) by (simp add: readFile_Inr)
    moreover have "map_of fs' p = Some (File c)"
      using mkdir_recursive_keeps [OF that(3), of p "File c"] that(1) by (simp add: readFile_Inr)
    ultimately have "readFile fs' p = Inr c"
      using that(1) by (simp add: readFile_Inr)
    then show ?thesis using that(1) by simp
  qed
  have sf: "?I (snd (syncFile rt installDir profileName d name srcBytes s))"
    if "?I s" "prefix dest d" for s d name srcBytes
  proof -
    have pre: "prefix installDir d" using assms(1) that(2) by (rule prefix_order.trans)
    obtain r s' where run: "syncFile rt installDir profileName d name srcBytes s = (r, s')"
      by (cases "syncFile rt installDir profileName d name srcBytes s")
    show ?thesis
      using modified_invariant_syncFile [OF pre assms(2) _ _ assms(5) run] that(1) run by simp
  qed
  have "?I (snd (copyDirWithManifestTracking rt installDir profileName entries dest st))"
    by (rule copy_invariant_aux(1) [of ?I dest, OF mk sf]) (use assms(3,4) in simp_all)
  then show ?thesis .
qed

section \<open>Unreadable files\<close>

text \<open>
  C9. If the file cannot be read, for example because nothing exists at the path,
  \<open>isFileModified\<close> returns \<open>false\<close> and raises no error.
\<close>

theorem isFileModified_unreadable:
  assumes "(\<exists>e. readFile fs filePath = Inl e) \<or> \<not> fileExists fs filePath"
  shows "isFileModified rt fs filePath expectedHash = Inr False"
proof -
  have "\<exists>e. readFile fs filePath = Inl e"
    using assms
    by (auto simp: fileExists_def fs_access_def readFile_def split: sum.splits node.splits)
  then show ?thesis by (auto simp: isFileModified_def computeFileHash_def)
qed

theorem isFileModified_unreadable_witness:
  "\<not> fileExists claudeDir0 [''home'', ''.claude'', ''gone.md'']
   \<and> isFileModified rt0 claudeDir0 [''home'', ''.claude'', ''gone.md''] ''sha256:v1'' = Inr False"
proof -
  have h: "\<not> fileExists claudeDir0 [''home'', ''.claude'', ''gone.md'']"
    by (simp add: fileExists_def fs_access_def stat_def resolve_parent_def ancestors_def
          is_dir_def claudeDir0_def)
  then show ?thesis
    using isFileModified_unreadable [of claudeDir0 "[''home'', ''.claude'', ''gone.md'']" rt0 "''sha256:v1''"]
    by blast
qed

section \<open>Installed agents\<close>

text \<open>
  C8, as the code has it. The list of installed agents is the list of the keys of the
  \<open>agents\<close> mapping when that mapping has a key; when \<open>agents\<close> is absent, \<open>null\<close> or
  empty, the list is \<open>claude-code\<close> alone. No stored list is read.
\<close>

theorem getInstalledAgents_keys:
  "(\<forall>kvs. cfgAgents config = Some kvs \<and> kvs \<noteq> [] \<longrightarrow> getInstalledAgents config = map fst kvs) \<and>
   (cfgAgents config = None \<or> cfgAgents config = Some [] \<longrightarrow>
      getInstalledAgents config = [''claude-code''])"
  by (auto simp: getInstalledAgents_def)

theorem getInstalledAgents_keys_witness:
  "cfgAgents twoAgentsConfig \<noteq> None \<and> cfgAgents twoAgentsConfig \<noteq> Some [] \<and>
   getInstalledAgents twoAgentsConfig = [''claude-code'', ''cursor-agent''] \<and>
   cfgAgents \<lparr>cfgAutoupdate = None, cfgInstallDir = ''/test'', cfgAgents = None, cfgVersion = None\<rparr> = None \<and>
   getInstalledAgents \<lparr>cfgAutoupdate = None, cfgInstallDir = ''/test'', cfgAgents = None, cfgVersion = None\<rparr>
     = [''claude-code'']"
  using getInstalledAgents_keys [of twoAgentsConfig]
    getInstalledAgents_keys [of "\<lparr>cfgAutoupdate = None, cfgInstallDir = ''/test'', cfgAgents = None, cfgVersion = None\<rparr>"]
  by (simp add: twoAgentsConfig_def)

text \<open>
  The claim as stated fails for a configuration whose \<open>agents\<close> mapping is empty:
  the key set is empty, the list is not.
\<close>

theorem getInstalledAgents_empty_counterexample:
  "cfgAgents emptyAgentsConfig = Some [] \<and> getInstalledAgents emptyAgentsConfig = [''claude-code'']"
  by (simp add: emptyAgentsConfig_def getInstalledAgents_def)


section \<open>Loading the manifest\<close>

lemma loadManifest_never_throws: "\<exists>r. loadManifest rt fs installDir = Inr r"
  by (simp add: loadManifest_def Let_def split: sum.splits option.splits)

lemma loadManifest_Some:
  assumes "loadManifest rt fs installDir = Inr (Some m)"
  shows "readFile fs (getManifestPath installDir) \<noteq> Inl e"
    and "\<exists>c. readFile fs (getManifestPath installDir) = Inr c \<and> JSON_parse rt c = Some m"
    and "jget m ''schemaVersion'' = Some (JNum 1)"
    and "typeof (jget m ''files'') = ''object''"
    and "\<exists>props. m = JObj props"
proof -
  from assms obtain c where c: "readFile fs (getManifestPath installDir) = Inr c"
      "JSON_parse rt c = Some m"
      "\<not> (m = JNull \<or> typeof (Some m) \<noteq> ''object'' \<or> jget m ''schemaVersion'' \<noteq> Some (JNum 1) \<or>
          typeof (jget m ''files'') \<noteq> ''object'')"
    by (auto simp: loadManifest_def Let_def split: sum.splits option.splits if_splits)
  show "readFile fs (getManifestPath installDir) \<noteq> Inl e" using c(1) by simp
  show "\<exists>c. readFile fs (getManifestPath installDir) = Inr c \<and> JSON_parse rt c = Some m"
    using c(1,2) by blast
  show "jget m ''schemaVersion'' = Some (JNum 1)" using c(3) by simp
  show "typeof (jget m ''files'') = ''object''" using c(3) by simp
  show "\<exists>props. m = JObj props" using c(3) by (cases m) auto
qed

lemma manifestFile0_eq: "getManifestPath home = manifestFile0"
  by (simp add: getManifestPath_def home_def manifestFile0_def)

lemma readFile_nullFilesDisk: "readFile nullFilesDisk manifestFile0 = Inr manifestNullFilesText"
  by (simp add: readFile_def stat_def resolve_parent_def ancestors_def is_dir_def
        nullFilesDisk_def claudeDir0_def manifestFile0_def)

text \<open>
  C5, where the code departs from it. A manifest file whose \<open>files\<close> is \<open>null\<close> (or an
  array) passes the validation, since \<open>typeof\<close> of both is \<open>object\<close>: \<open>loadManifest\<close>
  returns the parsed value as it is, where the claim says it returns \<open>null\<close>.
\<close>

theorem loadManifest_null_files:
  assumes "readFile fs (getManifestPath installDir) = Inr c"
      and "JSON_parse rt c = Some (JObj props)"
      and "map_of props ''schemaVersion'' = Some (JNum 1)"
      and "map_of props ''files'' = Some JNull \<or> (\<exists>xs. map_of props ''files'' = Some (JArr xs))"
  shows "loadManifest rt fs installDir = Inr (Some (JObj props))"
proof -
  have "fs_access fs (getManifestPath installDir) = Inr ()"
    using assms(1) by (auto simp: fs_access_def readFile_def split: sum.splits)
  moreover have "typeof (map_of props ''files'') = ''object''"
    using assms(4) by auto
  ultimately show ?thesis
    using assms(1,2,3) by (simp add: loadManifest_def)
qed

theorem loadManifest_null_files_witness:
  "readFile nullFilesDisk (getManifestPath home) = Inr manifestNullFilesText \<and>
   JSON_parse rt0 manifestNullFilesText = Some manifestNullFiles \<and>
   loadManifest rt0 nullFilesDisk home = Inr (Some manifestNullFiles) \<and>
   jget manifestNullFiles ''files'' = Some JNull"
proof -
  have h1: "readFile nullFilesDisk (getManifestPath home) = Inr manifestNullFilesText"
    using readFile_nullFilesDisk by (simp add: manifestFile0_eq)
  have h2: "JSON_parse rt0 manifestNullFilesText
              = Some (JObj [(''schemaVersion'', JNum 1), (''files'', JNull)])"
    by (simp add: rt0_def parse0_def manifestNullFiles_def)
  have "loadManifest rt0 nullFilesDisk home
          = Inr (Some (JObj [(''schemaVersion'', JNum 1), (''files'', JNull)]))"
    by (rule loadManifest_null_files [OF h1 h2]) simp_all
  then show ?thesis using h1 h2 by (simp add: manifestNullFiles_def)
qed

section \<open>Saving a loaded manifest\<close>

lemma mkdirs_noop: "\<forall>q\<in>set qs. map_of fs q = Some Dir \<Longrightarrow> mkdirs fs qs = Inr fs"
  by (induction qs) auto

lemma mkdir_recursive_noop:
  assumes "resolve_parent fs p = None" "is_dir fs p"
  shows "mkdir_recursive fs p = Inr fs"
proof -
  have "map_of fs q = Some Dir" if "q \<in> set (tl (prefixes p))" for q
  proof -
    have q: "prefix q p" "q \<noteq> []" using that by (auto simp: set_tl_prefixes)
    then have "is_dir fs q"
      using assms by (cases "q = p") (auto simp: resolve_parent_None strict_prefix_def)
    then show ?thesis using q(2) by (simp add: is_dir_def)
  qed
  then show ?thesis unfolding mkdir_recursive_def by (intro mkdirs_noop) blast
qed

lemma resolve_parent_butlast:
  assumes "resolve_parent fs p = None" "p \<noteq> []"
  shows "resolve_parent fs (butlast p) = None" "is_dir fs (butlast p)"
proof -
  have sp: "strict_prefix (butlast p) p"
    using assms(2) by (metis append_butlast_last_id strict_prefixI' )
  show "is_dir fs (butlast p)" using assms(1) sp by (simp add: resolve_parent_None)
  show "resolve_parent fs (butlast p) = None"
    using assms(1) sp by (auto simp: resolve_parent_None intro: prefix_order.less_trans)
qed

lemma saveManifest_after_load:
  assumes rd: "readFile fs (getManifestPath installDir) = Inr c"
  shows "saveManifest rt installDir props fs =
           (Inr (),
            AList.update (getManifestPath installDir)
              (File (JSON_stringify rt (JObj (AList.update ''nojoVersion'' (JStr (currentVersion rt))
                        (AList.update ''updatedAt'' (JStr (now rt)) props))))) fs,
            AList.update ''nojoVersion'' (JStr (currentVersion rt))
              (AList.update ''updatedAt'' (JStr (now rt)) props))"
proof -
  let ?mp = "getManifestPath installDir"
  have r: "resolve_parent fs ?mp = None" "?mp \<noteq> []" "map_of fs ?mp = Some (File c)"
    using rd by (simp_all add: readFile_Inr)
  have "mkdir_recursive fs (butlast ?mp) = Inr fs"
    using resolve_parent_butlast [OF r(1,2)] by (rule mkdir_recursive_noop)
  moreover have "\<not> is_dir fs ?mp" using r(2,3) by (simp add: is_dir_def)
  ultimately show ?thesis
    using r(1) by (simp add: saveManifest_def Let_def writeFile_def)
qed

text \<open>
  C7, as the code has it. Saving a manifest that was loaded from disk assigns
  \<open>updatedAt\<close> and \<open>nojoVersion\<close> and leaves every other property as it was, the \<open>files\<close>
  mapping among them; the file then holds the text of that object, and where the
  runtime reads that text back the next load returns the object.
\<close>

theorem save_load_keeps_files:
  assumes "loadManifest rt fs installDir = Inr (Some m)"
  shows "\<exists>props fs' props'.
           m = JObj props \<and>
           saveManifest rt installDir props fs = (Inr (), fs', props') \<and>
           readFile fs' (getManifestPath installDir) = Inr (JSON_stringify rt (JObj props')) \<and>
           map_of props' ''files'' = map_of props ''files'' \<and>
           (\<forall>k. k \<noteq> ''updatedAt'' \<and> k \<noteq> ''nojoVersion'' \<longrightarrow> map_of props' k = map_of props k) \<and>
           map_of props' ''updatedAt'' = Some (JStr (now rt)) \<and>
           map_of props' ''nojoVersion'' = Some (JStr (currentVersion rt)) \<and>
           (JSON_parse rt (JSON_stringify rt (JObj props')) = Some (JObj props') \<longrightarrow>
              loadManifest rt fs' installDir = Inr (Some (JObj props')))"
proof -
  let ?mp = "getManifestPath installDir"
  obtain props where m: "m = JObj props" using loadManifest_Some(5) [OF assms] by blast
  obtain c where c: "readFile fs ?mp = Inr c" using loadManifest_Some(2) [OF assms] by blast
  define props' where "props' = AList.update ''nojoVersion'' (JStr (currentVersion rt))
              (AList.update ''updatedAt'' (JStr (now rt)) props)"
  define fs' where "fs' = AList.update ?mp (File (JSON_stringify rt (JObj props'))) fs"
  have sv: "saveManifest rt installDir props fs = (Inr (), fs', props')"
    using saveManifest_after_load [OF c] by (simp add: props'_def fs'_def)
  have "\<not> is_dir fs ?mp" using c by (simp add: readFile_Inr is_dir_def)
  then have wr: "writeFile fs ?mp (JSON_stringify rt (JObj props')) = Inr fs'"
    using c by (simp add: writeFile_Inr readFile_Inr fs'_def)
  have rd': "readFile fs' ?mp = Inr (JSON_stringify rt (JObj props'))"
    using wr by (rule readFile_after_write)
  have keep: "map_of props' k = map_of props k" if "k \<noteq> ''updatedAt''" "k \<noteq> ''nojoVersion''" for k
    using that by (simp add: props'_def update_conv')
  have upd: "map_of props' ''updatedAt'' = Some (JStr (now rt))"
    by (simp add: props'_def update_conv')
  have ver: "map_of props' ''nojoVersion'' = Some (JStr (currentVersion rt))"
    by (simp add: props'_def update_conv')
  have reload: "loadManifest rt fs' installDir = Inr (Some (JObj props'))"
    if "JSON_parse rt (JSON_stringify rt (JObj props')) = Some (JObj props')"
  proof -
    have "fs_access fs' ?mp = Inr ()"
      using rd' by (auto simp: fs_access_def readFile_def split: sum.splits)
    moreover have "map_of props' ''schemaVersion'' = Some (JNum 1)"
      using loadManifest_Some(3) [OF assms] m keep [of "''schemaVersion''"] by simp
    moreover have "typeof (map_of props' ''files'') = ''object''"
      using loadManifest_Some(4) [OF assms] m keep [of "''files''"] by simp
    ultimately show ?thesis using rd' that by (simp add: loadManifest_def)
  qed
  show ?thesis
    using m sv rd' keep upd ver reload by (intro exI [of _ props] exI [of _ fs'] exI [of _ props']) simp
qed

lemma load_oldManifest: "loadManifest rt0 oldManifestDisk home = Inr (Some (JObj oldManifestProps))"
proof -
  have "fs_access oldManifestDisk manifestFile0 = Inr ()"
    by (simp add: fs_access_def stat_def resolve_parent_def ancestors_def is_dir_def
          oldManifestDisk_def claudeDir0_def manifestFile0_def)
  moreover have "readFile oldManifestDisk manifestFile0 = Inr oldManifestText"
    by (simp add: readFile_def stat_def resolve_parent_def ancestors_def is_dir_def
          oldManifestDisk_def claudeDir0_def manifestFile0_def)
  moreover have "manifestNullFilesText \<noteq> oldManifestText"
    by (simp add: manifestNullFilesText_def oldManifestText_def)
  then have "JSON_parse rt0 oldManifestText = Some (JObj oldManifestProps)"
    by (simp add: rt0_def parse0_def)
  ultimately show ?thesis
    by (simp add: loadManifest_def manifestFile0_eq oldManifestProps_def)
qed

theorem save_load_keeps_files_witness:
  "loadManifest rt0 oldManifestDisk home = Inr (Some (JObj oldManifestProps)) \<and>
   (\<exists>fs' props'. saveManifest rt0 home oldManifestProps oldManifestDisk = (Inr (), fs', props') \<and>
      map_of props' ''files'' = map_of oldManifestProps ''files'' \<and>
      map_of props' ''createdAt'' = Some (JStr ''t0''))"
proof -
  from save_load_keeps_files [OF load_oldManifest]
  obtain props fs' props' where a: "JObj oldManifestProps = JObj props"
      and b: "saveManifest rt0 home props oldManifestDisk = (Inr (), fs', props')"
      and c: "map_of props' ''files'' = map_of props ''files''"
      and d: "\<forall>k. k \<noteq> ''updatedAt'' \<and> k \<noteq> ''nojoVersion'' \<longrightarrow> map_of props' k = map_of props k"
    by (elim exE conjE)
  have p: "props = oldManifestProps" using a by simp
  have "map_of props' ''createdAt'' = map_of oldManifestProps ''createdAt''"
    using d p by simp
  then have e: "map_of props' ''createdAt'' = Some (JStr ''t0'')"
    by (simp add: oldManifestProps_def)
  show ?thesis using load_oldManifest b c e unfolding p by blast
qed

text \<open>
  The claim as stated fails: \<open>updatedAt\<close> is not the only field that changes. A manifest
  written by version 0.9.0 and saved by version 1.0.0 has its \<open>nojoVersion\<close> replaced.
\<close>

theorem save_load_nojoVersion_counterexample:
  "loadManifest rt0 oldManifestDisk home = Inr (Some (JObj oldManifestProps)) \<and>
   map_of oldManifestProps ''nojoVersion'' = Some (JStr ''0.9.0'') \<and>
   map_of (snd (snd (saveManifest rt0 home oldManifestProps oldManifestDisk))) ''nojoVersion''
     = Some (JStr ''1.0.0'')"
proof -
  have "readFile oldManifestDisk (getManifestPath home) = Inr oldManifestText"
    by (simp add: readFile_def stat_def resolve_parent_def ancestors_def is_dir_def
          oldManifestDisk_def claudeDir0_def manifestFile0_def manifestFile0_eq)
  then have "map_of (snd (snd (saveManifest rt0 home oldManifestProps oldManifestDisk))) ''nojoVersion''
     = Some (JStr (currentVersion rt0))"
    by (subst saveManifest_after_load [where c = oldManifestText]) (simp_all add: update_conv')
  moreover have "currentVersion rt0 = ''1.0.0''" by (simp add: currentVersion_def rt0_def)
  moreover have "map_of oldManifestProps ''nojoVersion'' = Some (JStr ''0.9.0'')"
    by (simp add: oldManifestProps_def)
  ultimately show ?thesis using load_oldManifest by simp
qed


section \<open>Loading the configuration\<close>

lemma map_of_filter_keys:
  "map_of (filter (\<lambda>(k, w). k \<in> S) kvs) k = (if k \<in> S then map_of kvs k else None)"
  by (induction kvs) auto

lemma jget_validated:
  assumes "k \<in> set [''profile'', ''installDir'', ''agents'', ''version'']"
  shows "map_of (useDefaults (removeAdditional kvs)) k = map_of kvs k"
proof -
  have "map_of (removeAdditional kvs) k = map_of kvs k"
    using assms unfolding removeAdditional_def by (subst map_of_filter_keys) simp
  moreover have "k \<noteq> ''autoupdate''" using assms by auto
  ultimately show ?thesis by (auto simp: useDefaults_def map_add_def split: option.splits)
qed

lemma validateConfigSchema_Some:
  assumes "validateConfigSchema raw = Some validated"
  shows "\<exists>kvs. raw = JObj kvs \<and>
           jget validated ''agents'' = map_of kvs ''agents'' \<and>
           jget validated ''profile'' = map_of kvs ''profile'' \<and>
           (case map_of kvs ''agents'' of None \<Rightarrow> True | Some (JObj as) \<Rightarrow> True | Some w \<Rightarrow> False)"
proof -
  obtain kvs where raw: "raw = JObj kvs"
    using assms by (cases raw) (simp_all add: validateConfigSchema_def)
  have v: "validated = JObj (useDefaults (removeAdditional kvs))" and ok: "schemaValid kvs"
    using assms raw by (simp_all add: validateConfigSchema_def split: if_splits)
  have ag: "(case map_of kvs ''agents'' of None \<Rightarrow> True | Some (JObj as) \<Rightarrow> list_all (\<lambda>(k, a). validAgent a) as
              | Some w \<Rightarrow> False)"
    using ok unfolding schemaValid_def by blast
  have "(case map_of kvs ''agents'' of None \<Rightarrow> True | Some (JObj as) \<Rightarrow> True | Some w \<Rightarrow> False)"
  proof (cases "map_of kvs ''agents''")
    case None
    then show ?thesis by simp
  next
    case (Some a)
    then show ?thesis using ag by (cases a) simp_all
  qed
  then show ?thesis using raw v jget_validated [of "''agents''" kvs] jget_validated [of "''profile''" kvs]
    by simp
qed

text \<open>
  C10. When \<open>loadConfig\<close> returns a configuration for a file without an \<open>agents\<close> object
  but with the legacy \<open>profile.baseProfile\<close>, its \<open>agents\<close> is the single entry
  \<open>claude-code\<close> with that base profile; when the file has an \<open>agents\<close> object, its
  \<open>agents\<close> is that object, whatever the legacy field says.
\<close>

theorem loadConfig_legacy_profile:
  assumes "readFile fs (getConfigPath installDir) = Inr c"
      and "JSON_parse rt c = Some raw"
      and "loadConfig rt fs installDir = Some config"
  shows "((\<forall>as. jget raw ''agents'' \<noteq> Some (JObj as)) \<and>
          jget_opt (jget raw ''profile'') ''baseProfile'' = Some (JStr b) \<longrightarrow>
            cfgAgents config =
              Some [(''claude-code'', JObj [(''profile'', JObj [(''baseProfile'', JStr b)])])]) \<and>
         (\<forall>as. jget raw ''agents'' = Some (JObj as) \<longrightarrow> cfgAgents config = Some as)"
proof -
  have acc: "fs_access fs (getConfigPath installDir) = Inr ()"
    using assms(1) by (auto simp: fs_access_def readFile_def split: sum.splits)
  have unf: "loadConfig rt fs installDir =
      (if raw = JNull \<or> typeof (Some raw) \<noteq> ''object'' then None
       else (case validateConfigSchema raw of
               None \<Rightarrow> None
             | Some validated \<Rightarrow>
                 (let result = configFromValidated validated installDir
                  in if cfgAgents result \<noteq> None \<or> cfgAutoupdate result \<noteq> None
                     then Some result else None)))"
    by (simp add: loadConfig_def acc assms(1,2))
  obtain validated where val: "validateConfigSchema raw = Some validated"
    using assms(3) unfolding unf by (cases "validateConfigSchema raw") (simp_all split: if_splits)
  have config: "config = configFromValidated validated installDir"
    using assms(3) unfolding unf val by (simp add: Let_def split: if_splits)
  obtain kvs where kvs: "raw = JObj kvs"
      "jget validated ''agents'' = map_of kvs ''agents''"
      "jget validated ''profile'' = map_of kvs ''profile''"
      "(case map_of kvs ''agents'' of None \<Rightarrow> True | Some (JObj as) \<Rightarrow> True | Some w \<Rightarrow> False)"
    using validateConfigSchema_Some [OF val] by blast
  show ?thesis
  proof (cases "map_of kvs ''agents''")
    case None
    then have "cfgAgents config =
       (case jget_opt (map_of kvs ''profile'') ''baseProfile'' of
          Some (JStr b) \<Rightarrow> Some [(''claude-code'', JObj [(''profile'', JObj [(''baseProfile'', JStr b)])])]
        | w' \<Rightarrow> None)"
      unfolding config configFromValidated_def Let_def kvs(2,3)
      by (simp split: option.splits json.splits)
    then show ?thesis using None kvs(1) by simp
  next
    case (Some a)
    then obtain as where a: "a = JObj as" using kvs(4) by (cases a) simp_all
    have "cfgAgents config = Some as"
      unfolding config configFromValidated_def Let_def kvs(2,3) Some a by simp
    then show ?thesis using Some a kvs(1) by simp
  qed
qed

lemma load_legacyDisk:
  "loadConfig rt0 legacyDisk home =
     Some \<lparr>cfgAutoupdate = Some ''disabled'', cfgInstallDir = ''/home'',
           cfgAgents = Some [(''claude-code'', JObj [(''profile'', JObj [(''baseProfile'', JStr ''amol'')])])],
           cfgVersion = None\<rparr>"
proof -
  have "fs_access legacyDisk configFile0 = Inr ()"
    by (simp add: fs_access_def stat_def resolve_parent_def ancestors_def is_dir_def
          legacyDisk_def claudeDir0_def configFile0_def)
  moreover have "readFile legacyDisk configFile0 = Inr legacyConfigText"
    by (simp add: readFile_def stat_def resolve_parent_def ancestors_def is_dir_def
          legacyDisk_def claudeDir0_def configFile0_def)
  moreover have "JSON_parse rt0 legacyConfigText = Some legacyConfig"
    by (simp add: rt0_def parse0_def legacyConfigText_def manifestNullFilesText_def
          oldManifestText_def newManifestText_def)
  moreover have "getConfigPath home = configFile0"
    by (simp add: getConfigPath_def home_def configFile0_def)
  ultimately show ?thesis
    by (simp add: loadConfig_def legacyConfig_def validateConfigSchema_def schemaValid_def removeAdditional_def useDefaults_def validProfile_def
          validString_def jstring_def path_string_def home_def configFromValidated_def)
qed

lemma load_bothDisk:
  "loadConfig rt0 bothDisk home =
     Some \<lparr>cfgAutoupdate = Some ''disabled'', cfgInstallDir = ''/home'',
           cfgAgents = Some [(''claude-code'', JObj [(''profile'', JObj [(''baseProfile'', JStr ''new-profile'')])])],
           cfgVersion = None\<rparr>"
proof -
  have "fs_access bothDisk configFile0 = Inr ()"
    by (simp add: fs_access_def stat_def resolve_parent_def ancestors_def is_dir_def
          bothDisk_def claudeDir0_def configFile0_def)
  moreover have "readFile bothDisk configFile0 = Inr bothConfigText"
    by (simp add: readFile_def stat_def resolve_parent_def ancestors_def is_dir_def
          bothDisk_def claudeDir0_def configFile0_def)
  moreover have "JSON_parse rt0 bothConfigText = Some bothConfig"
    by (simp add: rt0_def parse0_def legacyConfigText_def manifestNullFilesText_def
          oldManifestText_def newManifestText_def bothConfigText_def)
  moreover have "getConfigPath home = configFile0"
    by (simp add: getConfigPath_def home_def configFile0_def)
  ultimately show ?thesis
    by (simp add: loadConfig_def bothConfig_def validateConfigSchema_def schemaValid_def removeAdditional_def useDefaults_def validProfile_def
          validAgent_def validString_def jstring_def path_string_def home_def configFromValidated_def)
qed

theorem loadConfig_legacy_profile_witness:
  "readFile legacyDisk (getConfigPath home) = Inr legacyConfigText \<and>
   JSON_parse rt0 legacyConfigText = Some legacyConfig \<and>
   (\<forall>as. jget legacyConfig ''agents'' \<noteq> Some (JObj as)) \<and>
   jget_opt (jget legacyConfig ''profile'') ''baseProfile'' = Some (JStr ''amol'') \<and>
   (\<exists>config. loadConfig rt0 legacyDisk home = Some config \<and>
      cfgAgents config =
        Some [(''claude-code'', JObj [(''profile'', JObj [(''baseProfile'', JStr ''amol'')])])]) \<and>
   readFile bothDisk (getConfigPath home) = Inr bothConfigText \<and>
   JSON_parse rt0 bothConfigText = Some bothConfig \<and>
   (\<exists>config. loadConfig rt0 bothDisk home = Some config \<and>
      jget bothConfig ''agents'' = Some (JObj [(''claude-code'', JObj [(''profile'', JObj [(''baseProfile'', JStr ''new-profile'')])])]) \<and>
      cfgAgents config =
        Some [(''claude-code'', JObj [(''profile'', JObj [(''baseProfile'', JStr ''new-profile'')])])])"
proof -
  have p: "getConfigPath home = configFile0"
    by (simp add: getConfigPath_def home_def configFile0_def)
  have h1: "readFile legacyDisk (getConfigPath home) = Inr legacyConfigText"
    unfolding p
    by (simp add: readFile_def stat_def resolve_parent_def ancestors_def is_dir_def
          legacyDisk_def claudeDir0_def configFile0_def)
  have h2: "JSON_parse rt0 legacyConfigText = Some legacyConfig"
    by (simp add: rt0_def parse0_def legacyConfigText_def manifestNullFilesText_def
          oldManifestText_def newManifestText_def)
  have h3: "\<forall>as. jget legacyConfig ''agents'' \<noteq> Some (JObj as)"
    by (simp add: legacyConfig_def)
  have h4: "jget_opt (jget legacyConfig ''profile'') ''baseProfile'' = Some (JStr ''amol'')"
    by (simp add: legacyConfig_def)
  have c1: "cfgAgents \<lparr>cfgAutoupdate = Some ''disabled'', cfgInstallDir = ''/home'',
           cfgAgents = Some [(''claude-code'', JObj [(''profile'', JObj [(''baseProfile'', JStr ''amol'')])])],
           cfgVersion = None\<rparr> =
        Some [(''claude-code'', JObj [(''profile'', JObj [(''baseProfile'', JStr ''amol'')])])]"
    using loadConfig_legacy_profile [OF h1 h2 load_legacyDisk, of "''amol''"] h3 h4 by blast
  have g1: "readFile bothDisk (getConfigPath home) = Inr bothConfigText"
    unfolding p
    by (simp add: readFile_def stat_def resolve_parent_def ancestors_def is_dir_def
          bothDisk_def claudeDir0_def configFile0_def)
  have g2: "JSON_parse rt0 bothConfigText = Some bothConfig"
    by (simp add: rt0_def parse0_def legacyConfigText_def manifestNullFilesText_def
          oldManifestText_def newManifestText_def bothConfigText_def)
  have g3: "jget bothConfig ''agents'' = Some (JObj [(''claude-code'', JObj [(''profile'', JObj [(''baseProfile'', JStr ''new-profile'')])])])"
    by (simp add: bothConfig_def)
  have c2: "cfgAgents \<lparr>cfgAutoupdate = Some ''disabled'', cfgInstallDir = ''/home'',
           cfgAgents = Some [(''claude-code'', JObj [(''profile'', JObj [(''baseProfile'', JStr ''new-profile'')])])],
           cfgVersion = None\<rparr> =
        Some [(''claude-code'', JObj [(''profile'', JObj [(''baseProfile'', JStr ''new-profile'')])])]"
    using loadConfig_legacy_profile [OF g1 g2 load_bothDisk, of "''x''"] g3 by blast
  show ?thesis using h1 h2 h3 h4 load_legacyDisk c1 g1 g2 g3 load_bothDisk c2 by simp
qed


section \<open>Uninstall\<close>

lemma map_of_filter_fst:
  "map_of (filter (\<lambda>(q, n). P q) fs) p = (if P p then map_of fs p else None)"
  by (induction fs) auto

lemma map_of_rm_recursive_force:
  "map_of (rm_recursive_force fs d) p = (if prefix d p then None else map_of fs p)"
  unfolding rm_recursive_force_def by (subst map_of_filter_fst) simp

lemma removeSkillsPermissions_disk:
  "fst (removeSkillsPermissions rt sd sf st) = fst st \<or>
   (\<exists>c c'. readFile (fst st) sf = Inr c \<and>
           fst (removeSkillsPermissions rt sd sf st) = AList.update sf (File c') (fst st))"
  by (auto simp: removeSkillsPermissions_def Let_def writeFile_Inr
           split: sum.splits option.splits)

lemma uninstallSkills_disk:
  assumes "fileExists fs sd"
  shows "map_of (fst (uninstallSkills rt sd sf (fs, out))) p =
           (if prefix sd p then None
            else if p = sf then map_of (fst (uninstallSkills rt sd sf (fs, out))) sf
            else map_of fs p)"
proof -
  let ?fs1 = "rm_recursive_force fs sd"
  let ?st1 = "(?fs1, out @ [''Removing nojo skills...''] @ [''Removed skills directory''])"
  have acc: "fs_access fs sd = Inr ()"
    using assms by (auto simp: fileExists_def split: sum.splits)
  have un: "uninstallSkills rt sd sf (fs, out) = removeSkillsPermissions rt sd sf ?st1"
    by (simp add: uninstallSkills_def acc)
  consider (same) "fst (removeSkillsPermissions rt sd sf ?st1) = ?fs1"
    | (wr) c c' where "readFile ?fs1 sf = Inr c"
        "fst (removeSkillsPermissions rt sd sf ?st1) = AList.update sf (File c') ?fs1"
    using removeSkillsPermissions_disk [of rt sd sf ?st1] by auto
  then show ?thesis
  proof cases
    case same
    then show ?thesis unfolding un by (simp add: map_of_rm_recursive_force)
  next
    case wr
    have "\<not> prefix sd sf"
      using wr(1) by (auto simp: readFile_Inr map_of_rm_recursive_force)
    then show ?thesis unfolding un wr(2)
      by (auto simp: update_conv' map_of_rm_recursive_force)
  qed
qed

lemma readdir_Dir:
  assumes "resolve_parent fs d = None" "map_of fs d = Some Dir" "d \<noteq> []"
  shows "\<exists>es. readdir fs d = Inr es \<and>
              (es = [] \<longleftrightarrow> (\<forall>q. q \<noteq> [] \<and> butlast q = d \<longrightarrow> map_of fs q = None))"
proof -
  let ?ch = "filter (\<lambda>(q, n). q \<noteq> [] \<and> butlast q = d) fs"
  have rd: "readdir fs d = Inr (remdups (map (\<lambda>(q, n). last q) ?ch))"
    using assms by (simp add: readdir_def stat_def)
  have "?ch = [] \<longleftrightarrow> (\<forall>q. q \<noteq> [] \<and> butlast q = d \<longrightarrow> map_of fs q = None)"
  proof
    assume e: "?ch = []"
    show "\<forall>q. q \<noteq> [] \<and> butlast q = d \<longrightarrow> map_of fs q = None"
    proof (intro allI impI)
      fix q assume q: "q \<noteq> [] \<and> butlast q = d"
      have "q \<notin> fst ` set fs"
      proof
        assume "q \<in> fst ` set fs"
        then obtain n where "(q, n) \<in> set fs" by auto
        then have "(q, n) \<in> set ?ch" using q by simp
        then show False using e by simp
      qed
      then show "map_of fs q = None" by (simp add: map_of_eq_None_iff)
    qed
  next
    assume a: "\<forall>q. q \<noteq> [] \<and> butlast q = d \<longrightarrow> map_of fs q = None"
    show "?ch = []"
    proof (rule ccontr)
      assume "?ch \<noteq> []"
      then obtain q n where m: "(q, n) \<in> set ?ch" by (cases ?ch) auto
      then have "q \<in> fst ` set fs" "q \<noteq> [] \<and> butlast q = d" by (auto intro: rev_image_eqI)
      then show False using a by (simp add: map_of_eq_None_iff)
    qed
  qed
  then show ?thesis using rd by simp
qed

lemma uninstallManifest_file:
  assumes rd: "readFile fs (getManifestPath installDir) = Inr c"
  shows "\<exists>fs' out'.
           uninstallManifest installDir (fs, out) = (Inr (), fs', out') \<and>
           map_of fs' (getManifestPath installDir) = None \<and>
           (\<forall>p. p \<noteq> getManifestPath installDir \<and> p \<noteq> installDir @ [''.claude''] \<longrightarrow>
                map_of fs' p = map_of fs p) \<and>
           (map_of fs' (installDir @ [''.claude'']) = None \<longleftrightarrow>
              (\<forall>q. q \<noteq> [] \<and> butlast q = installDir @ [''.claude''] \<and> q \<noteq> getManifestPath installDir
                  \<longrightarrow> map_of fs q = None))"
proof -
  let ?mp = "getManifestPath installDir"
  let ?cd = "installDir @ [''.claude'']"
  let ?fs1 = "AList.delete ?mp fs"
  have cd: "?cd = butlast ?mp" "?mp \<noteq> []" "?cd \<noteq> []" "?cd \<noteq> ?mp"
    by (simp_all add: getManifestPath_def butlast_append)
  have r: "resolve_parent fs ?mp = None" "map_of fs ?mp = Some (File c)"
    using rd by (simp_all add: readFile_Inr)
  have ex: "fileExists fs ?mp" using r cd(2) by (simp add: fileExists_iff)
  have ul: "unlink fs ?mp = Inr ?fs1" using r cd(2) by (simp add: unlink_def stat_def)
  have pcd: "resolve_parent fs ?cd = None" "is_dir fs ?cd"
    using resolve_parent_butlast [OF r(1) cd(2)] cd(1) by simp_all
  have m1: "map_of ?fs1 p = (if p = ?mp then None else map_of fs p)" for p
    by (simp add: delete_conv')
  have dir1: "is_dir ?fs1 q" if "is_dir fs q" for q
    using that r(2) by (auto simp: is_dir_def m1)
  have pcd1: "resolve_parent ?fs1 ?cd = None"
    using pcd(1) dir1 by (auto simp: resolve_parent_None)
  have cd1: "map_of ?fs1 ?cd = Some Dir"
    using pcd(2) cd(3,4) by (simp add: is_dir_def m1)
  have ex1: "fileExists ?fs1 ?cd" using pcd1 cd1 by (simp add: fileExists_iff)
  obtain es where es: "readdir ?fs1 ?cd = Inr es"
      "es = [] \<longleftrightarrow> (\<forall>q. q \<noteq> [] \<and> butlast q = ?cd \<longrightarrow> map_of ?fs1 q = None)"
    using readdir_Dir [OF pcd1 cd1 cd(3)] by blast
  have emp: "es = [] \<longleftrightarrow> (\<forall>q. q \<noteq> [] \<and> butlast q = ?cd \<and> q \<noteq> ?mp \<longrightarrow> map_of fs q = None)"
    unfolding es(2) by (auto simp: m1)
  show ?thesis
  proof (cases "es = []")
    case True
    have rm: "rmdir ?fs1 ?cd = Inr (AList.delete ?cd ?fs1)"
      using es(1) True by (simp add: rmdir_def)
    have "uninstallManifest installDir (fs, out) =
            (Inr (), AList.delete ?cd ?fs1,
             out @ [''Manifest file removed: '' @ path_string ?mp] @
               [''Removed empty .claude directory''])"
      using ex ul ex1 es(1) True rm by (simp add: uninstallManifest_def Let_def)
    moreover have "map_of (AList.delete ?cd ?fs1) p =
            (if p = ?cd \<or> p = ?mp then None else map_of fs p)" for p
      by (simp add: delete_conv')
    ultimately show ?thesis using emp True by simp
  next
    case False
    have "uninstallManifest installDir (fs, out) = (Inr (), ?fs1, out @ [''Manifest file removed: '' @ path_string ?mp])"
      using ex ul ex1 es(1) False by (simp add: uninstallManifest_def Let_def)
    then show ?thesis using emp False cd1 cd(4) by (simp add: m1)
  qed
qed

text \<open>
  C3, as the code has it. A full uninstall does not consult the manifest. Once the
  skills directory exists, \<open>uninstallSkills\<close> removes it with everything below it,
  tracked or not, modified or not, and leaves every other path as it is, the settings
  file apart. \<open>uninstallManifest\<close> deletes a manifest file whenever there is one,
  whatever entries it holds, and removes the enclosing directory exactly when nothing
  else is left in it.
\<close>

theorem uninstall_removes_skills_directory:
  assumes "fileExists fs claudeSkillsDir"
  shows "(\<forall>p. prefix claudeSkillsDir p \<longrightarrow>
            map_of (fst (uninstallSkills rt claudeSkillsDir claudeSettingsFile (fs, out))) p = None) \<and>
         (\<forall>p. \<not> prefix claudeSkillsDir p \<and> p \<noteq> claudeSettingsFile \<longrightarrow>
            map_of (fst (uninstallSkills rt claudeSkillsDir claudeSettingsFile (fs, out))) p
              = map_of fs p) \<and>
         (\<forall>c. readFile fs (getManifestPath installDir) = Inr c \<longrightarrow>
            (\<exists>fs' out'.
               uninstallManifest installDir (fs, out) = (Inr (), fs', out') \<and>
               map_of fs' (getManifestPath installDir) = None \<and>
               (\<forall>p. p \<noteq> getManifestPath installDir \<and> p \<noteq> installDir @ [''.claude''] \<longrightarrow>
                    map_of fs' p = map_of fs p) \<and>
               (map_of fs' (installDir @ [''.claude'']) = None \<longleftrightarrow>
                  (\<forall>q. q \<noteq> [] \<and> butlast q = installDir @ [''.claude''] \<and>
                       q \<noteq> getManifestPath installDir \<longrightarrow> map_of fs q = None))))"
proof (intro conjI allI impI)
  fix p assume "prefix claudeSkillsDir p"
  then show "map_of (fst (uninstallSkills rt claudeSkillsDir claudeSettingsFile (fs, out))) p = None"
    using uninstallSkills_disk [OF assms, of rt claudeSettingsFile out p] by simp
next
  fix p assume "\<not> prefix claudeSkillsDir p \<and> p \<noteq> claudeSettingsFile"
  then show "map_of (fst (uninstallSkills rt claudeSkillsDir claudeSettingsFile (fs, out))) p = map_of fs p"
    using uninstallSkills_disk [OF assms, of rt claudeSettingsFile out p] by simp
next
  fix c assume "readFile fs (getManifestPath installDir) = Inr c"
  then show "\<exists>fs' out'.
               uninstallManifest installDir (fs, out) = (Inr (), fs', out') \<and>
               map_of fs' (getManifestPath installDir) = None \<and>
               (\<forall>p. p \<noteq> getManifestPath installDir \<and> p \<noteq> installDir @ [''.claude''] \<longrightarrow>
                    map_of fs' p = map_of fs p) \<and>
               (map_of fs' (installDir @ [''.claude'']) = None \<longleftrightarrow>
                  (\<forall>q. q \<noteq> [] \<and> butlast q = installDir @ [''.claude''] \<and>
                       q \<noteq> getManifestPath installDir \<longrightarrow> map_of fs q = None))"
    by (rule uninstallManifest_file)
qed

lemma fileExists_notesDisk: "fileExists notesDisk skillsDir0"
  by (simp add: fileExists_def fs_access_def stat_def resolve_parent_def ancestors_def
        is_dir_def notesDisk_def claudeDir0_def skillsDir0_def)

lemma readFile_notesDisk: "readFile notesDisk notesFile = Inr ''my notes''"
  by (simp add: readFile_def stat_def resolve_parent_def ancestors_def is_dir_def
        notesDisk_def claudeDir0_def skillsDir0_def notesFile_def)

theorem uninstall_removes_skills_directory_witness:
  "fileExists notesDisk skillsDir0 \<and> prefix skillsDir0 notesFile \<and>
   map_of (fst (uninstallSkills rt0 skillsDir0 settingsFile0 (notesDisk, []))) notesFile = None \<and>
   readFile notesDisk (getManifestPath home) = Inr oldManifestText \<and>
   (\<exists>fs' out'. uninstallManifest home (notesDisk, []) = (Inr (), fs', out') \<and>
      map_of fs' (getManifestPath home) = None)"
proof -
  have h2: "prefix skillsDir0 notesFile" by (simp add: skillsDir0_def notesFile_def)
  have h3: "readFile notesDisk (getManifestPath home) = Inr oldManifestText"
    by (simp add: readFile_def stat_def resolve_parent_def ancestors_def is_dir_def
          notesDisk_def claudeDir0_def skillsDir0_def notesFile_def manifestFile0_def manifestFile0_eq)
  note t = uninstall_removes_skills_directory [OF fileExists_notesDisk, of rt0 settingsFile0 "[]" home]
  have a: "map_of (fst (uninstallSkills rt0 skillsDir0 settingsFile0 (notesDisk, []))) notesFile = None"
    using t h2 by blast
  have b: "\<exists>fs' out'. uninstallManifest home (notesDisk, []) = (Inr (), fs', out') \<and>
      map_of fs' (getManifestPath home) = None"
    using t h3 by blast
  show ?thesis using fileExists_notesDisk h2 h3 a b by blast
qed

text \<open>
  The claim as stated fails: a file that the engine never wrote, and that no entry of
  the manifest on disk tracks, lies in the skills directory before the uninstall and is
  gone after it.
\<close>

lemma load_notesDisk: "loadManifest rt0 notesDisk home = Inr (Some (JObj oldManifestProps))"
proof -
  have "fs_access notesDisk manifestFile0 = Inr ()"
    by (simp add: fs_access_def stat_def resolve_parent_def ancestors_def is_dir_def
          notesDisk_def claudeDir0_def skillsDir0_def notesFile_def manifestFile0_def)
  moreover have "readFile notesDisk manifestFile0 = Inr oldManifestText"
    by (simp add: readFile_def stat_def resolve_parent_def ancestors_def is_dir_def
          notesDisk_def claudeDir0_def skillsDir0_def notesFile_def manifestFile0_def)
  moreover have "manifestNullFilesText \<noteq> oldManifestText"
    by (simp add: manifestNullFilesText_def oldManifestText_def)
  then have "JSON_parse rt0 oldManifestText = Some (JObj oldManifestProps)"
    by (simp add: rt0_def parse0_def)
  ultimately show ?thesis
    by (simp add: loadManifest_def manifestFile0_eq oldManifestProps_def)
qed

theorem uninstall_untracked_file_counterexample:
  "readFile notesDisk notesFile = Inr ''my notes'' \<and>
   loadManifest rt0 notesDisk home = Inr (Some (JObj oldManifestProps)) \<and>
   jget_opt (map_of oldManifestProps ''files'') ''.claude/skills/notes.txt'' = None \<and>
   map_of (fst (uninstallSkills rt0 skillsDir0 settingsFile0 (notesDisk, []))) notesFile = None"
proof -
  have "prefix skillsDir0 notesFile" by (simp add: skillsDir0_def notesFile_def)
  then have "map_of (fst (uninstallSkills rt0 skillsDir0 settingsFile0 (notesDisk, []))) notesFile = None"
    using uninstallSkills_disk [OF fileExists_notesDisk, of rt0 settingsFile0 "[]" notesFile] by simp
  moreover have "jget_opt (map_of oldManifestProps ''files'') ''.claude/skills/notes.txt'' = None"
    by (simp add: oldManifestProps_def)
  ultimately show ?thesis using readFile_notesDisk load_notesDisk by simp
qed


section \<open>The synchronizer preserves user edits\<close>

lemma copyEntries_append:
  "copyEntries rt installDir profileName (es1 @ es2) dest cnt st =
     (case copyEntries rt installDir profileName es1 dest cnt st of
        (Inl e, s) \<Rightarrow> (Inl e, s)
      | (Inr cnt', s) \<Rightarrow> copyEntries rt installDir profileName es2 dest cnt' s)"
proof (induction es1 arbitrary: cnt st)
  case Nil
  then show ?case by simp
next
  case (Cons a es1)
  show ?case
  proof (cases a)
    case (SrcFile name srcBytes)
    then show ?thesis using Cons.IH
      by (simp split: prod.splits sum.splits outcome.splits)
  next
    case (SrcDir name sub)
    then show ?thesis using Cons.IH
      by (simp split: prod.splits sum.splits)
  qed
qed

lemma copyDir_existing_dest:
  assumes "resolve_parent (disk st) (dest @ [name]) = None"
  shows "copyDirWithManifestTracking rt installDir profileName entries dest st =
           copyEntries rt installDir profileName entries dest \<lparr>preserved = 0, installed = 0\<rparr> st"
proof -
  have "resolve_parent (disk st) dest = None" "is_dir (disk st) dest"
    using resolve_parent_butlast [OF assms] by simp_all
  then have "mkdir_recursive (disk st) dest = Inr (disk st)" by (rule mkdir_recursive_noop)
  then show ?thesis by simp
qed

lemma modified_invariant_entries:
  assumes "prefix installDir dest" "prefix installDir p"
      and "readFile (disk st) p = Inr c"
      and "getManifestEntry (manifest st) (path_relative installDir p) = Some e"
      and "sha256 rt c \<noteq> hash e"
  shows "readFile (disk (snd (copyEntries rt installDir profileName entries dest cnt st))) p = Inr c \<and>
         getManifestEntry (manifest (snd (copyEntries rt installDir profileName entries dest cnt st)))
           (path_relative installDir p) = Some e"
proof -
  let ?I = "\<lambda>s. readFile (disk s) p = Inr c \<and>
                 getManifestEntry (manifest s) (path_relative installDir p) = Some e"
  have mk: "?I (s\<lparr>disk := fs'\<rparr>)"
    if "?I s" "prefix dest d" "mkdir_recursive (disk s) d = Inr fs'" for s d fs'
  proof -
    have "resolve_parent fs' p = None"
      using resolve_parent_mkdir [OF _ that(3), of p] that(1) by (simp add: readFile_Inr)
    moreover have "map_of fs' p = Some (File c)"
      using mkdir_recursive_keeps [OF that(3), of p "File c"] that(1) by (simp add: readFile_Inr)
    ultimately have "readFile fs' p = Inr c"
      using that(1) by (simp add: readFile_Inr)
    then show ?thesis using that(1) by simp
  qed
  have sf: "?I (snd (syncFile rt installDir profileName d name srcBytes s))"
    if "?I s" "prefix dest d" for s d name srcBytes
  proof -
    have pre: "prefix installDir d" using assms(1) that(2) by (rule prefix_order.trans)
    obtain r s' where run: "syncFile rt installDir profileName d name srcBytes s = (r, s')"
      by (cases "syncFile rt installDir profileName d name srcBytes s")
    show ?thesis
      using modified_invariant_syncFile [OF pre assms(2) _ _ assms(5) run] that(1) run by simp
  qed
  have "?I (snd (copyEntries rt installDir profileName entries dest cnt st))"
    by (rule copy_invariant_aux(2) [of ?I dest, OF mk sf]) (use assms(3,4) in simp_all)
  then show ?thesis .
qed

text \<open>
  C1. Let the destination of a source file exist and be tracked, with a content whose
  SHA-256 differs from the hash of its manifest entry. Then every sync run under the
  install directory leaves the file with that content and the entry as it is, whether
  the run ends or aborts; and the run of the file's directory, when it reaches the file
  after the entries before it, counts it as preserved and changes nothing.
\<close>

theorem user_edit_preserved:
  assumes "prefix installDir dest"
      and "readFile (disk st) (dest @ [name]) = Inr c"
      and "getManifestEntry (manifest st) (path_relative installDir (dest @ [name])) = Some e"
      and "sha256 rt c \<noteq> hash e"
  shows "(\<forall>entries dest'. prefix installDir dest' \<longrightarrow>
            readFile (disk (snd (copyDirWithManifestTracking rt installDir profileName entries dest' st)))
              (dest @ [name]) = Inr c \<and>
            getManifestEntry
              (manifest (snd (copyDirWithManifestTracking rt installDir profileName entries dest' st)))
              (path_relative installDir (dest @ [name])) = Some e) \<and>
         copyDirWithManifestTracking rt installDir profileName (es1 @ SrcFile name srcBytes # es2) dest st =
           (case copyEntries rt installDir profileName es1 dest \<lparr>preserved = 0, installed = 0\<rparr> st of
              (Inl err, s) \<Rightarrow> (Inl err, s)
            | (Inr cnt, s) \<Rightarrow>
                copyEntries rt installDir profileName es2 dest (cnt\<lparr>preserved := preserved cnt + 1\<rparr>)
                  (info (''  Preserving user-modified: '' @ name) s))"
proof (intro conjI allI impI)
  have pre: "prefix installDir (dest @ [name])" using assms(1) by (simp add: prefix_prefix)
  fix entries dest' assume d: "prefix installDir dest'"
  show "readFile (disk (snd (copyDirWithManifestTracking rt installDir profileName entries dest' st)))
          (dest @ [name]) = Inr c"
    using modified_invariant [OF d pre assms(2,3,4)] by simp
  show "getManifestEntry
          (manifest (snd (copyDirWithManifestTracking rt installDir profileName entries dest' st)))
          (path_relative installDir (dest @ [name])) = Some e"
    using modified_invariant [OF d pre assms(2,3,4)] by simp
next
  have pre: "prefix installDir (dest @ [name])" using assms(1) by (simp add: prefix_prefix)
  let ?zero = "\<lparr>preserved = 0, installed = 0\<rparr>"
  obtain r s where run1: "copyEntries rt installDir profileName es1 dest ?zero st = (r, s)"
    by (cases "copyEntries rt installDir profileName es1 dest ?zero st")
  have inv: "readFile (disk s) (dest @ [name]) = Inr c"
      "getManifestEntry (manifest s) (path_relative installDir (dest @ [name])) = Some e"
    using modified_invariant_entries [OF assms(1) pre assms(2,3,4), of profileName es1 ?zero] run1
    by simp_all
  have step: "syncFile rt installDir profileName dest name srcBytes s =
                (Inr Preserved, info (''  Preserving user-modified: '' @ name) s)"
    using inv assms(4) by (rule syncFile_modified)
  have "resolve_parent (disk st) (dest @ [name]) = None" using assms(2) by (simp add: readFile_Inr)
  then have "copyDirWithManifestTracking rt installDir profileName (es1 @ SrcFile name srcBytes # es2) dest st
      = copyEntries rt installDir profileName (es1 @ SrcFile name srcBytes # es2) dest ?zero st"
    by (rule copyDir_existing_dest)
  also have "\<dots> = (case (r, s) of
              (Inl err, s) \<Rightarrow> (Inl err, s)
            | (Inr cnt, s) \<Rightarrow>
                copyEntries rt installDir profileName es2 dest (cnt\<lparr>preserved := preserved cnt + 1\<rparr>)
                  (info (''  Preserving user-modified: '' @ name) s))"
    unfolding copyEntries_append run1 using step by (simp split: sum.splits)
  finally show "copyDirWithManifestTracking rt installDir profileName (es1 @ SrcFile name srcBytes # es2) dest st =
           (case copyEntries rt installDir profileName es1 dest ?zero st of
              (Inl err, s) \<Rightarrow> (Inl err, s)
            | (Inr cnt, s) \<Rightarrow>
                copyEntries rt installDir profileName es2 dest (cnt\<lparr>preserved := preserved cnt + 1\<rparr>)
                  (info (''  Preserving user-modified: '' @ name) s))"
    unfolding run1 .
qed

theorem user_edit_preserved_witness:
  "prefix home alphaDir \<and>
   readFile (disk editedState) (alphaDir @ [''S.md'']) = Inr ''v1-edited'' \<and>
   getManifestEntry (manifest editedState) (path_relative home (alphaDir @ [''S.md''])) = Some skillEntry \<and>
   sha256 rt0 ''v1-edited'' \<noteq> hash skillEntry \<and>
   copyDirWithManifestTracking rt0 home ''alpha'' [SrcFile ''S.md'' ''v2''] alphaDir editedState =
     (Inr \<lparr>preserved = 1, installed = 0\<rparr>, info ''  Preserving user-modified: S.md'' editedState)"
proof -
  have h1: "prefix home alphaDir" by (simp add: home_def alphaDir_def)
  have h2: "readFile (disk editedState) (alphaDir @ [''S.md'']) = Inr ''v1-edited''"
    by (simp add: readFile_def stat_def resolve_parent_def ancestors_def is_dir_def
          editedState_def claudeDir0_def skillsDir0_def alphaDir_def skillFile_def)
  have h3: "getManifestEntry (manifest editedState) (path_relative home (alphaDir @ [''S.md'']))
              = Some skillEntry"
    by (simp add: getManifestEntry_def editedState_def home_def alphaDir_def skillKey_def)
  have h4: "sha256 rt0 ''v1-edited'' \<noteq> hash skillEntry"
    by (simp add: rt0_def skillEntry_def)
  have "copyDirWithManifestTracking rt0 home ''alpha'' ([] @ SrcFile ''S.md'' ''v2'' # []) alphaDir editedState =
     (Inr \<lparr>preserved = 1, installed = 0\<rparr>, info (''  Preserving user-modified: '' @ ''S.md'') editedState)"
    using user_edit_preserved [OF h1 h2 h3 h4, of "''alpha''" "[]" "''v2''" "[]"] by simp
  then show ?thesis using h1 h2 h3 h4 by simp
qed


section \<open>The synchronizer preserves untracked files\<close>

lemma fileExists_update_File:
  assumes "fileExists fs p" "\<not> is_dir fs q"
  shows "fileExists (AList.update q (File c) fs) p"
proof -
  have "resolve_parent (AList.update q (File c) fs) p = None"
    using assms by (simp add: fileExists_iff resolve_parent_update_File)
  moreover have "p = [] \<or> map_of (AList.update q (File c) fs) p \<noteq> None"
    using assms(1) by (auto simp: fileExists_iff update_conv')
  ultimately show ?thesis by (simp add: fileExists_iff)
qed

lemma fileExists_mkdir:
  assumes "fileExists fs p" "mkdir_recursive fs d = Inr fs'"
  shows "fileExists fs' p" "map_of fs' p = map_of fs p"
proof -
  have r: "resolve_parent fs' p = None"
    using resolve_parent_mkdir [OF _ assms(2), of p] assms(1) by (simp add: fileExists_iff)
  show m: "map_of fs' p = map_of fs p"
  proof (cases "map_of fs p")
    case None
    then have "p = []" using assms(1) by (simp add: fileExists_iff)
    then show ?thesis using mkdir_recursive_map_of [OF assms(2), of p] by simp
  next
    case (Some n)
    then show ?thesis using mkdir_recursive_keeps [OF assms(2), of p n] by simp
  qed
  show "fileExists fs' p" using r m assms(1) by (simp add: fileExists_iff)
qed

lemma untracked_invariant_syncFile:
  assumes inst: "prefix installDir d" "prefix installDir p"
      and ex: "fileExists (disk st) p"
      and en: "getManifestEntry (manifest st) (path_relative installDir p) = None"
      and run: "syncFile rt installDir profileName d name srcBytes st = (r, st')"
  shows "fileExists (disk st') p \<and> map_of (disk st') p = map_of (disk st) p \<and>
         getManifestEntry (manifest st') (path_relative installDir p) = None"
proof (cases "d @ [name] = p")
  case True
  have "syncFile rt installDir profileName d name srcBytes st =
          (Inr Preserved, info (''  Preserving existing: '' @ name) st)"
    using ex en True by (intro syncFile_untracked) simp_all
  then have "st' = info (''  Preserving existing: '' @ name) st" using run by simp
  then show ?thesis using ex en by simp
next
  case False
  have pre: "prefix installDir (d @ [name])" using inst(1) by (simp add: prefix_prefix)
  have k: "path_relative installDir p \<noteq> path_relative installDir (d @ [name])"
    using path_relative_inj [OF pre inst(2)] False by auto
  consider (same) "st' = st" | (msg) m where "st' = info m st"
    | (wr) "\<not> is_dir (disk st) (d @ [name])"
        "st' = engineWrite rt profileName (d @ [name]) (path_relative installDir (d @ [name]))
                  (finalContent rt installDir name srcBytes) st"
    using syncFile_result [OF run] by blast
  then show ?thesis
  proof cases
    case same
    then show ?thesis using ex en by simp
  next
    case msg
    then show ?thesis using ex en by simp
  next
    case wr
    have "fileExists (disk st') p"
      using ex wr by (simp add: fileExists_update_File)
    moreover have "map_of (disk st') p = map_of (disk st) p"
      using wr(2) False by (simp add: update_conv')
    moreover have "getManifestEntry (manifest st') (path_relative installDir p) = None"
      using en k wr(2) by (simp add: getManifestEntry_engineWrite)
    ultimately show ?thesis by simp
  qed
qed

lemma installSkillsFile_syncFile:
  "installSkillsFile rt installDir profileName claudeSkillsDir name srcBytes st =
     syncFile rt installDir profileName claudeSkillsDir name srcBytes st"
  by (simp add: installSkillsFile_def syncFile_def installFile_def Let_def
           split: option.splits sum.splits)

lemma installSkillsEntries_append:
  "installSkillsEntries rt installDir profileName sd (es1 @ es2) totals st =
     (case installSkillsEntries rt installDir profileName sd es1 totals st of
        (Inl e, s) \<Rightarrow> (Inl e, s)
      | (Inr totals', s) \<Rightarrow> installSkillsEntries rt installDir profileName sd es2 totals' s)"
proof (induction es1 arbitrary: totals st)
  case Nil
  then show ?case by simp
next
  case (Cons a es1)
  show ?case
  proof (cases a)
    case (SrcFile name srcBytes)
    then show ?thesis using Cons.IH
      by (simp split: prod.splits sum.splits outcome.splits)
  next
    case (SrcDir name sub)
    then show ?thesis using Cons.IH
      by (simp split: prod.splits sum.splits)
  qed
qed

lemma install_invariant_aux:
  assumes mk: "\<And>st d fs'. I st \<Longrightarrow> prefix sd d \<Longrightarrow> mkdir_recursive (disk st) d = Inr fs' \<Longrightarrow> I (st\<lparr>disk := fs'\<rparr>)"
      and sf: "\<And>st d name srcBytes. I st \<Longrightarrow> prefix sd d \<Longrightarrow>
                 I (snd (syncFile rt installDir profileName d name srcBytes st))"
  shows "I st \<Longrightarrow> I (snd (installSkillsEntries rt installDir profileName sd entries totals st))"
proof (induction entries arbitrary: totals st)
  case Nil
  then show ?case by simp
next
  case (Cons a entries)
  show ?case
  proof (cases a)
    case (SrcFile name srcBytes)
    obtain r st' where run: "syncFile rt installDir profileName sd name srcBytes st = (r, st')"
      by (cases "syncFile rt installDir profileName sd name srcBytes st")
    have "I st'" using sf [OF Cons.prems, of sd name srcBytes] run by simp
    then show ?thesis using SrcFile run Cons.IH
      by (simp add: installSkillsFile_syncFile split: sum.splits outcome.splits)
  next
    case (SrcDir name sub)
    obtain r st' where run:
      "copyDirWithManifestTracking rt installDir profileName sub (sd @ [name]) st = (r, st')"
      by (cases "copyDirWithManifestTracking rt installDir profileName sub (sd @ [name]) st")
    have "I (snd (copyDirWithManifestTracking rt installDir profileName sub (sd @ [name]) st))"
      by (rule copy_invariant_aux(1) [of I sd, OF mk sf]) (use Cons.prems in simp_all)
    then have "I st'" using run by simp
    then show ?thesis using SrcDir run Cons.IH Cons.prems
      by (simp split: sum.splits)
  qed
qed

lemma untracked_invariant:
  assumes "prefix installDir dest" "prefix installDir p"
      and "fileExists (disk st) p"
      and "getManifestEntry (manifest st) (path_relative installDir p) = None"
  shows "fileExists (disk (snd (copyDirWithManifestTracking rt installDir profileName entries dest st))) p \<and>
         map_of (disk (snd (copyDirWithManifestTracking rt installDir profileName entries dest st))) p
           = map_of (disk st) p \<and>
         getManifestEntry (manifest (snd (copyDirWithManifestTracking rt installDir profileName entries dest st)))
           (path_relative installDir p) = None"
    and "fileExists (disk (snd (copyEntries rt installDir profileName entries dest cnt st))) p \<and>
         map_of (disk (snd (copyEntries rt installDir profileName entries dest cnt st))) p
           = map_of (disk st) p \<and>
         getManifestEntry (manifest (snd (copyEntries rt installDir profileName entries dest cnt st)))
           (path_relative installDir p) = None"
    and "fileExists (disk (snd (installSkillsEntries rt installDir profileName dest entries cnt st))) p \<and>
         map_of (disk (snd (installSkillsEntries rt installDir profileName dest entries cnt st))) p
           = map_of (disk st) p \<and>
         getManifestEntry (manifest (snd (installSkillsEntries rt installDir profileName dest entries cnt st)))
           (path_relative installDir p) = None"
proof -
  let ?I = "\<lambda>s. fileExists (disk s) p \<and> map_of (disk s) p = map_of (disk st) p \<and>
                 getManifestEntry (manifest s) (path_relative installDir p) = None"
  have mk: "?I (s\<lparr>disk := fs'\<rparr>)"
    if "?I s" "prefix dest d" "mkdir_recursive (disk s) d = Inr fs'" for s d fs'
    using fileExists_mkdir [OF _ that(3), of p] that(1) by simp
  have sf: "?I (snd (syncFile rt installDir profileName d name srcBytes s))"
    if "?I s" "prefix dest d" for s d name srcBytes
  proof -
    have pre: "prefix installDir d" using assms(1) that(2) by (rule prefix_order.trans)
    obtain r s' where run: "syncFile rt installDir profileName d name srcBytes s = (r, s')"
      by (cases "syncFile rt installDir profileName d name srcBytes s")
    show ?thesis
      using untracked_invariant_syncFile [OF pre assms(2) _ _ run] that(1) run by simp
  qed
  have "?I (snd (copyDirWithManifestTracking rt installDir profileName entries dest st))"
    by (rule copy_invariant_aux(1) [of ?I dest, OF mk sf]) (use assms(3,4) in simp_all)
  then show "fileExists (disk (snd (copyDirWithManifestTracking rt installDir profileName entries dest st))) p \<and>
         map_of (disk (snd (copyDirWithManifestTracking rt installDir profileName entries dest st))) p
           = map_of (disk st) p \<and>
         getManifestEntry (manifest (snd (copyDirWithManifestTracking rt installDir profileName entries dest st)))
           (path_relative installDir p) = None" .
  have "?I (snd (copyEntries rt installDir profileName entries dest cnt st))"
    by (rule copy_invariant_aux(2) [of ?I dest, OF mk sf]) (use assms(3,4) in simp_all)
  then show "fileExists (disk (snd (copyEntries rt installDir profileName entries dest cnt st))) p \<and>
         map_of (disk (snd (copyEntries rt installDir profileName entries dest cnt st))) p
           = map_of (disk st) p \<and>
         getManifestEntry (manifest (snd (copyEntries rt installDir profileName entries dest cnt st)))
           (path_relative installDir p) = None" .
  have "?I (snd (installSkillsEntries rt installDir profileName dest entries cnt st))"
    by (rule install_invariant_aux [of ?I dest, OF mk sf]) (use assms(3,4) in simp_all)
  then show "fileExists (disk (snd (installSkillsEntries rt installDir profileName dest entries cnt st))) p \<and>
         map_of (disk (snd (installSkillsEntries rt installDir profileName dest entries cnt st))) p
           = map_of (disk st) p \<and>
         getManifestEntry (manifest (snd (installSkillsEntries rt installDir profileName dest entries cnt st)))
           (path_relative installDir p) = None" .
qed

text \<open>
  C2. Let the destination of a source file exist without an entry in the manifest. Then
  every sync run under the install directory, and the loop of \<open>installSkills\<close> as well,
  leaves what lies at that path as it is and adds no entry for it, whether the run ends
  or aborts; and the run of the file's directory, when it reaches the file after the
  entries before it, counts it as preserved and changes nothing.
\<close>

theorem untracked_file_preserved:
  assumes "prefix installDir dest"
      and "fileExists (disk st) (dest @ [name])"
      and "getManifestEntry (manifest st) (path_relative installDir (dest @ [name])) = None"
  shows "(\<forall>entries dest'. prefix installDir dest' \<longrightarrow>
            fileExists (disk (snd (copyDirWithManifestTracking rt installDir profileName entries dest' st)))
              (dest @ [name]) \<and>
            map_of (disk (snd (copyDirWithManifestTracking rt installDir profileName entries dest' st)))
              (dest @ [name]) = map_of (disk st) (dest @ [name]) \<and>
            getManifestEntry
              (manifest (snd (copyDirWithManifestTracking rt installDir profileName entries dest' st)))
              (path_relative installDir (dest @ [name])) = None) \<and>
         (\<forall>entries dest'. prefix installDir dest' \<longrightarrow>
            fileExists (disk (snd (installSkillsEntries rt installDir profileName dest' entries totals st)))
              (dest @ [name]) \<and>
            map_of (disk (snd (installSkillsEntries rt installDir profileName dest' entries totals st)))
              (dest @ [name]) = map_of (disk st) (dest @ [name]) \<and>
            getManifestEntry
              (manifest (snd (installSkillsEntries rt installDir profileName dest' entries totals st)))
              (path_relative installDir (dest @ [name])) = None) \<and>
         copyDirWithManifestTracking rt installDir profileName (es1 @ SrcFile name srcBytes # es2) dest st =
           (case copyEntries rt installDir profileName es1 dest \<lparr>preserved = 0, installed = 0\<rparr> st of
              (Inl err, s) \<Rightarrow> (Inl err, s)
            | (Inr cnt, s) \<Rightarrow>
                copyEntries rt installDir profileName es2 dest (cnt\<lparr>preserved := preserved cnt + 1\<rparr>)
                  (info (''  Preserving existing: '' @ name) s)) \<and>
         installSkillsEntries rt installDir profileName dest (es1 @ SrcFile name srcBytes # es2) totals st =
           (case installSkillsEntries rt installDir profileName dest es1 totals st of
              (Inl err, s) \<Rightarrow> (Inl err, s)
            | (Inr cnt, s) \<Rightarrow>
                installSkillsEntries rt installDir profileName dest es2
                  (cnt\<lparr>preserved := preserved cnt + 1\<rparr>)
                  (info (''  Preserving existing: '' @ name) s))"
proof -
  let ?p = "dest @ [name]"
  let ?zero = "\<lparr>preserved = 0, installed = 0\<rparr>"
  let ?msg = "''  Preserving existing: '' @ name"
  have pre: "prefix installDir ?p" using assms(1) by (simp add: prefix_prefix)
  have a: "fileExists (disk (snd (copyDirWithManifestTracking rt installDir profileName entries dest' st))) ?p \<and>
           map_of (disk (snd (copyDirWithManifestTracking rt installDir profileName entries dest' st))) ?p
             = map_of (disk st) ?p \<and>
           getManifestEntry (manifest (snd (copyDirWithManifestTracking rt installDir profileName entries dest' st)))
             (path_relative installDir ?p) = None"
    if "prefix installDir dest'" for entries dest'
    by (rule untracked_invariant(1) [OF that pre assms(2,3)])
  have b: "fileExists (disk (snd (installSkillsEntries rt installDir profileName dest' entries totals st))) ?p \<and>
           map_of (disk (snd (installSkillsEntries rt installDir profileName dest' entries totals st))) ?p
             = map_of (disk st) ?p \<and>
           getManifestEntry (manifest (snd (installSkillsEntries rt installDir profileName dest' entries totals st)))
             (path_relative installDir ?p) = None"
    if "prefix installDir dest'" for entries dest'
    by (rule untracked_invariant(3) [OF that pre assms(2,3)])
  have c: "copyDirWithManifestTracking rt installDir profileName (es1 @ SrcFile name srcBytes # es2) dest st =
           (case copyEntries rt installDir profileName es1 dest ?zero st of
              (Inl err, s) \<Rightarrow> (Inl err, s)
            | (Inr cnt, s) \<Rightarrow>
                copyEntries rt installDir profileName es2 dest (cnt\<lparr>preserved := preserved cnt + 1\<rparr>)
                  (info ?msg s))"
  proof -
    obtain r s where run1: "copyEntries rt installDir profileName es1 dest ?zero st = (r, s)"
      by (cases "copyEntries rt installDir profileName es1 dest ?zero st")
    have inv: "fileExists (disk s) ?p" "getManifestEntry (manifest s) (path_relative installDir ?p) = None"
      using untracked_invariant(2) [OF assms(1) pre assms(2,3), of rt profileName es1 ?zero] run1
      by simp_all
    have step: "syncFile rt installDir profileName dest name srcBytes s = (Inr Preserved, info ?msg s)"
      using inv by (rule syncFile_untracked)
    have "resolve_parent (disk st) ?p = None" using assms(2) by (simp add: fileExists_iff)
    then have "copyDirWithManifestTracking rt installDir profileName (es1 @ SrcFile name srcBytes # es2) dest st
        = copyEntries rt installDir profileName (es1 @ SrcFile name srcBytes # es2) dest ?zero st"
      by (rule copyDir_existing_dest)
    also have "\<dots> = (case (r, s) of
                (Inl err, s) \<Rightarrow> (Inl err, s)
              | (Inr cnt, s) \<Rightarrow>
                  copyEntries rt installDir profileName es2 dest (cnt\<lparr>preserved := preserved cnt + 1\<rparr>)
                    (info ?msg s))"
      unfolding copyEntries_append run1 using step by (simp split: sum.splits)
    finally show ?thesis unfolding run1 .
  qed
  have d: "installSkillsEntries rt installDir profileName dest (es1 @ SrcFile name srcBytes # es2) totals st =
           (case installSkillsEntries rt installDir profileName dest es1 totals st of
              (Inl err, s) \<Rightarrow> (Inl err, s)
            | (Inr cnt, s) \<Rightarrow>
                installSkillsEntries rt installDir profileName dest es2
                  (cnt\<lparr>preserved := preserved cnt + 1\<rparr>) (info ?msg s))"
  proof -
    obtain r s where run1: "installSkillsEntries rt installDir profileName dest es1 totals st = (r, s)"
      by (cases "installSkillsEntries rt installDir profileName dest es1 totals st")
    have inv: "fileExists (disk s) ?p" "getManifestEntry (manifest s) (path_relative installDir ?p) = None"
      using untracked_invariant(3) [OF assms(1) pre assms(2,3), of rt profileName es1 totals] run1
      by simp_all
    have step: "installSkillsFile rt installDir profileName dest name srcBytes s
                  = (Inr Preserved, info ?msg s)"
      unfolding installSkillsFile_syncFile using inv by (rule syncFile_untracked)
    show ?thesis
      unfolding installSkillsEntries_append run1 using step by (simp split: sum.splits)
  qed
  show ?thesis using a b c d by blast
qed

theorem untracked_file_preserved_witness:
  "prefix home alphaDir \<and>
   fileExists (disk untrackedState) (alphaDir @ [''notes.txt'']) \<and>
   getManifestEntry (manifest untrackedState) (path_relative home (alphaDir @ [''notes.txt''])) = None \<and>
   copyDirWithManifestTracking rt0 home ''alpha'' [SrcFile ''notes.txt'' ''shipped''] alphaDir untrackedState =
     (Inr \<lparr>preserved = 1, installed = 0\<rparr>, info ''  Preserving existing: notes.txt'' untrackedState)"
proof -
  have h1: "prefix home alphaDir" by (simp add: home_def alphaDir_def)
  have h2: "fileExists (disk untrackedState) (alphaDir @ [''notes.txt''])"
    by (simp add: fileExists_def fs_access_def stat_def resolve_parent_def ancestors_def is_dir_def
          untrackedState_def claudeDir0_def skillsDir0_def alphaDir_def)
  have h3: "getManifestEntry (manifest untrackedState) (path_relative home (alphaDir @ [''notes.txt'']))
              = None"
    by (simp add: getManifestEntry_def untrackedState_def manifest0_def)
  have "copyDirWithManifestTracking rt0 home ''alpha'' ([] @ SrcFile ''notes.txt'' ''shipped'' # []) alphaDir
          untrackedState =
     (Inr \<lparr>preserved = 1, installed = 0\<rparr>, info (''  Preserving existing: '' @ ''notes.txt'') untrackedState)"
    using untracked_file_preserved [OF h1 h2 h3, of rt0 "''alpha''" "\<lparr>preserved = 0, installed = 0\<rparr>" "[]" "''shipped''" "[]"]
    by simp
  then show ?thesis using h1 h2 h3 by simp
qed


section \<open>Manifest hashes are hashes of written content\<close>

lemma readFile_update_other:
  assumes "readFile fs p = Inr c" "q \<noteq> p" "\<not> is_dir fs q"
  shows "readFile (AList.update q (File c') fs) p = Inr c"
  using assms by (simp add: readFile_Inr resolve_parent_update_File update_conv')

lemma readFile_mkdir:
  assumes "readFile fs p = Inr c" "mkdir_recursive fs d = Inr fs'"
  shows "readFile fs' p = Inr c"
proof -
  have "resolve_parent fs' p = None"
    using resolve_parent_mkdir [OF _ assms(2), of p] assms(1) by (simp add: readFile_Inr)
  moreover have "map_of fs' p = Some (File c)"
    using mkdir_recursive_keeps [OF assms(2), of p "File c"] assms(1) by (simp add: readFile_Inr)
  ultimately show ?thesis using assms(1) by (simp add: readFile_Inr)
qed

lemma syncFile_Installed:
  assumes "syncFile rt installDir profileName d name srcBytes s = (Inr Installed, s')"
  shows "s' = engineWrite rt profileName (d @ [name]) (path_relative installDir (d @ [name]))
                (finalContent rt installDir name srcBytes) s"
    and "writeFile (disk s) (d @ [name]) (finalContent rt installDir name srcBytes) = Inr (disk s')"
  using syncFile_result [OF assms] by (simp_all add: writeFile_Inr)

lemma syncFile_Preserved:
  assumes "syncFile rt installDir profileName d name srcBytes s = (Inr Preserved, s')"
  shows "\<exists>msg. s' = info msg s"
  using syncFile_result [OF assms] by auto

lemma hash_invariant:
  assumes "prefix installDir dest"
  shows "\<forall>k. getManifestEntry (manifest (snd (copyDirWithManifestTracking rt installDir profileName entries dest st))) k
               = getManifestEntry (manifest st) k \<or>
             (\<exists>c e'. readFile (disk (snd (copyDirWithManifestTracking rt installDir profileName entries dest st)))
                        (installDir @ k) = Inr c \<and>
                     getManifestEntry (manifest (snd (copyDirWithManifestTracking rt installDir profileName entries dest st))) k
                       = Some e' \<and>
                     hash e' = sha256 rt c \<and> source e' = Nojo)"
proof -
  let ?I = "\<lambda>s. \<forall>k. getManifestEntry (manifest s) k = getManifestEntry (manifest st) k \<or>
             (\<exists>c e'. readFile (disk s) (installDir @ k) = Inr c \<and>
                     getManifestEntry (manifest s) k = Some e' \<and>
                     hash e' = sha256 rt c \<and> source e' = Nojo)"
  have mk: "?I (s\<lparr>disk := fs'\<rparr>)"
    if "?I s" "prefix dest d" "mkdir_recursive (disk s) d = Inr fs'" for s d fs'
  proof
    fix k
    from that(1) consider "getManifestEntry (manifest s) k = getManifestEntry (manifest st) k"
      | c e' where "readFile (disk s) (installDir @ k) = Inr c" "getManifestEntry (manifest s) k = Some e'"
          "hash e' = sha256 rt c" "source e' = Nojo"
      by blast
    then show "getManifestEntry (manifest (s\<lparr>disk := fs'\<rparr>)) k = getManifestEntry (manifest st) k \<or>
             (\<exists>c e'. readFile (disk (s\<lparr>disk := fs'\<rparr>)) (installDir @ k) = Inr c \<and>
                     getManifestEntry (manifest (s\<lparr>disk := fs'\<rparr>)) k = Some e' \<and>
                     hash e' = sha256 rt c \<and> source e' = Nojo)"
    proof cases
      case 1
      then show ?thesis by simp
    next
      case 2
      then show ?thesis using readFile_mkdir [OF 2(1) that(3)] by simp
    qed
  qed
  have sf: "?I (snd (syncFile rt installDir profileName d name srcBytes s))"
    if "?I s" "prefix dest d" for s d name srcBytes
  proof -
    let ?q = "d @ [name]"
    let ?kq = "path_relative installDir ?q"
    let ?c = "finalContent rt installDir name srcBytes"
    have "prefix installDir ?q"
      using assms that(2) by (meson prefix_order.trans prefix_prefix)
    then have q: "installDir @ ?kq = ?q" by (auto simp: prefix_def path_relative_append)
    obtain r s' where run: "syncFile rt installDir profileName d name srcBytes s = (r, s')"
      by (cases "syncFile rt installDir profileName d name srcBytes s")
    consider (same) "s' = s" | (msg) m where "s' = info m s"
      | (wr) "resolve_parent (disk s) ?q = None" "\<not> is_dir (disk s) ?q"
          "s' = engineWrite rt profileName ?q ?kq ?c s"
      using syncFile_result [OF run] by auto
    then have "?I s'"
    proof cases
      case same
      then show ?thesis using that(1) by simp
    next
      case msg
      then show ?thesis using that(1) by simp
    next
      case wr
      have w: "writeFile (disk s) ?q ?c = Inr (disk s')" using wr by (simp add: writeFile_Inr)
      show ?thesis
      proof
        fix k
        show "getManifestEntry (manifest s') k = getManifestEntry (manifest st) k \<or>
             (\<exists>c e'. readFile (disk s') (installDir @ k) = Inr c \<and>
                     getManifestEntry (manifest s') k = Some e' \<and>
                     hash e' = sha256 rt c \<and> source e' = Nojo)"
        proof (cases "k = ?kq")
          case True
          have "readFile (disk s') (installDir @ k) = Inr ?c"
            using readFile_after_write [OF w] True q by simp
          then show ?thesis using True wr(3) by (simp add: getManifestEntry_engineWrite)
        next
          case False
          then have ne: "?q \<noteq> installDir @ k" using q by auto
          have ent: "getManifestEntry (manifest s') k = getManifestEntry (manifest s) k"
            using False wr(3) by (simp add: getManifestEntry_engineWrite)
          from that(1) consider "getManifestEntry (manifest s) k = getManifestEntry (manifest st) k"
            | c e' where "readFile (disk s) (installDir @ k) = Inr c"
                "getManifestEntry (manifest s) k = Some e'" "hash e' = sha256 rt c" "source e' = Nojo"
            by blast
          then show ?thesis
          proof cases
            case 1
            then show ?thesis using ent by simp
          next
            case 2
            have "readFile (disk s') (installDir @ k) = Inr c"
              using readFile_update_other [OF 2(1) ne wr(2)] wr(3) by simp
            then show ?thesis using 2 ent by simp
          qed
        qed
      qed
    qed
    then show ?thesis using run by simp
  qed
  have "?I (snd (copyDirWithManifestTracking rt installDir profileName entries dest st))"
    by (rule copy_invariant_aux(1) [of ?I dest, OF mk sf]) simp_all
  then show ?thesis .
qed

text \<open>
  C6. When the loop body installs a file, the file on disk holds the final content (for
  an \<open>.md\<close> file the content after the template substitution) and the entry recorded for
  it carries the SHA-256 of exactly that content; when it preserves a file, disk and
  manifest stay as they are. Over a whole run, ended or aborted, every manifest entry is
  the entry from before the run, or the file it names holds a content with the entry's
  hash.
\<close>

theorem hash_is_of_written_content:
  assumes "prefix installDir dest"
  shows "(\<forall>d name srcBytes s s'.
            syncFile rt installDir profileName d name srcBytes s = (Inr Installed, s') \<longrightarrow>
              readFile (disk s') (d @ [name])
                = Inr (if suffix ''.md'' name then substituteTemplatePaths rt srcBytes installDir
                       else srcBytes) \<and>
              (\<exists>e'. getManifestEntry (manifest s') (path_relative installDir (d @ [name])) = Some e' \<and>
                    hash e' = sha256 rt (if suffix ''.md'' name
                                         then substituteTemplatePaths rt srcBytes installDir
                                         else srcBytes) \<and>
                    source e' = Nojo)) \<and>
         (\<forall>d name srcBytes s s'.
            syncFile rt installDir profileName d name srcBytes s = (Inr Preserved, s') \<longrightarrow>
              disk s' = disk s \<and> manifest s' = manifest s) \<and>
         (\<forall>k. getManifestEntry
                 (manifest (snd (copyDirWithManifestTracking rt installDir profileName entries dest st))) k
                 = getManifestEntry (manifest st) k \<or>
              (\<exists>c e'. readFile
                        (disk (snd (copyDirWithManifestTracking rt installDir profileName entries dest st)))
                        (installDir @ k) = Inr c \<and>
                      getManifestEntry
                        (manifest (snd (copyDirWithManifestTracking rt installDir profileName entries dest st))) k
                        = Some e' \<and>
                      hash e' = sha256 rt c \<and> source e' = Nojo))"
proof (intro conjI allI impI)
  fix d name srcBytes s s'
  assume run: "syncFile rt installDir profileName d name srcBytes s = (Inr Installed, s')"
  let ?c = "if suffix ''.md'' name then substituteTemplatePaths rt srcBytes installDir else srcBytes"
  have c: "finalContent rt installDir name srcBytes = ?c" by (simp add: finalContent_def)
  show "readFile (disk s') (d @ [name]) = Inr ?c"
    using readFile_after_write [OF syncFile_Installed(2) [OF run]] unfolding c .
  show "\<exists>e'. getManifestEntry (manifest s') (path_relative installDir (d @ [name])) = Some e' \<and>
             hash e' = sha256 rt ?c \<and> source e' = Nojo"
    unfolding syncFile_Installed(1) [OF run] c by (simp add: getManifestEntry_engineWrite)
next
  fix d name srcBytes s s'
  assume run: "syncFile rt installDir profileName d name srcBytes s = (Inr Preserved, s')"
  then obtain msg where "s' = info msg s" using syncFile_Preserved by blast
  then show "disk s' = disk s" "manifest s' = manifest s" by simp_all
next
  fix k
  show "getManifestEntry
          (manifest (snd (copyDirWithManifestTracking rt installDir profileName entries dest st))) k
          = getManifestEntry (manifest st) k \<or>
        (\<exists>c e'. readFile
                  (disk (snd (copyDirWithManifestTracking rt installDir profileName entries dest st)))
                  (installDir @ k) = Inr c \<and>
                getManifestEntry
                  (manifest (snd (copyDirWithManifestTracking rt installDir profileName entries dest st))) k
                  = Some e' \<and>
                hash e' = sha256 rt c \<and> source e' = Nojo)"
    using hash_invariant [OF assms, of rt profileName entries st] by blast
qed

lemma syncFile_freshState:
  "syncFile rt0 home ''alpha'' alphaDir ''README.md'' ''see ~/skills'' freshState =
     (Inr Installed,
      engineWrite rt0 ''alpha'' (alphaDir @ [''README.md''])
        [''.claude'', ''skills'', ''alpha'', ''README.md''] ''see /home/skills'' freshState)"
proof -
  have md: "suffix ''.md'' ''README.md''" by (simp add: suffix_to_prefix)
  have sub: "substituteTemplatePaths rt0 ''see ~/skills'' home = ''see /home/skills''"
    by (simp add: rt0_def path_string_def home_def)
  have ne: "\<not> fileExists (disk freshState) (alphaDir @ [''README.md''])"
    by (simp add: fileExists_def fs_access_def stat_def resolve_parent_def ancestors_def is_dir_def
          freshState_def claudeDir0_def skillsDir0_def alphaDir_def)
  have rel: "path_relative home (alphaDir @ [''README.md'']) = [''.claude'', ''skills'', ''alpha'', ''README.md'']"
    by (simp add: home_def alphaDir_def)
  have wr: "writeFile (disk freshState) (alphaDir @ [''README.md'']) ''see /home/skills''
              = Inr (AList.update (alphaDir @ [''README.md'']) (File ''see /home/skills'') (disk freshState))"
    by (simp add: writeFile_def resolve_parent_def ancestors_def is_dir_def
          freshState_def claudeDir0_def skillsDir0_def alphaDir_def)
  have rd: "computeFileHash rt0 (AList.update (alphaDir @ [''README.md'']) (File ''see /home/skills'') (disk freshState))
              (alphaDir @ [''README.md'']) = Inr (sha256 rt0 ''see /home/skills'')"
    using readFile_after_write [OF wr] by (simp add: computeFileHash_def)
  show ?thesis
    unfolding syncFile_def Let_def installFile_def engineWrite_def
    using md sub ne rel wr rd by simp
qed

theorem hash_is_of_written_content_witness:
  "prefix home alphaDir \<and>
   (\<exists>s'. syncFile rt0 home ''alpha'' alphaDir ''README.md'' ''see ~/skills'' freshState = (Inr Installed, s') \<and>
      readFile (disk s') (alphaDir @ [''README.md'']) = Inr ''see /home/skills'' \<and>
      (\<exists>e'. getManifestEntry (manifest s') (path_relative home (alphaDir @ [''README.md''])) = Some e' \<and>
            hash e' = ''sha256:see /home/skills'')) \<and>
   (\<exists>s'. syncFile rt0 home ''alpha'' alphaDir ''S.md'' ''v2'' editedState = (Inr Preserved, s') \<and>
      disk s' = disk editedState \<and> manifest s' = manifest editedState)"
proof -
  have h1: "prefix home alphaDir" by (simp add: home_def alphaDir_def)
  note t = hash_is_of_written_content [OF h1, of rt0 "''alpha''" "[]" freshState]
  let ?s1 = "engineWrite rt0 ''alpha'' (alphaDir @ [''README.md''])
        [''.claude'', ''skills'', ''alpha'', ''README.md''] ''see /home/skills'' freshState"
  have md: "suffix ''.md'' ''README.md''" by (simp add: suffix_to_prefix)
  have sub: "substituteTemplatePaths rt0 ''see ~/skills'' home = ''see /home/skills''"
    by (simp add: rt0_def path_string_def home_def)
  have "readFile (disk ?s1) (alphaDir @ [''README.md''])
           = Inr (if suffix ''.md'' ''README.md'' then substituteTemplatePaths rt0 ''see ~/skills'' home
                  else ''see ~/skills'') \<and>
        (\<exists>e'. getManifestEntry (manifest ?s1) (path_relative home (alphaDir @ [''README.md''])) = Some e' \<and>
              hash e' = sha256 rt0 (if suffix ''.md'' ''README.md''
                                     then substituteTemplatePaths rt0 ''see ~/skills'' home
                                     else ''see ~/skills'') \<and>
              source e' = Nojo)"
    using t syncFile_freshState by blast
  then have a: "readFile (disk ?s1) (alphaDir @ [''README.md'']) = Inr ''see /home/skills'' \<and>
        (\<exists>e'. getManifestEntry (manifest ?s1) (path_relative home (alphaDir @ [''README.md''])) = Some e' \<and>
              hash e' = ''sha256:see /home/skills'')"
    using md sub by (auto simp: rt0_def)
  have rd: "readFile (disk editedState) (alphaDir @ [''S.md'']) = Inr ''v1-edited''"
    by (simp add: readFile_def stat_def resolve_parent_def ancestors_def is_dir_def
          editedState_def claudeDir0_def skillsDir0_def alphaDir_def skillFile_def)
  have en: "getManifestEntry (manifest editedState) (path_relative home (alphaDir @ [''S.md'']))
              = Some skillEntry"
    by (simp add: getManifestEntry_def editedState_def home_def alphaDir_def skillKey_def)
  have ne: "sha256 rt0 ''v1-edited'' \<noteq> hash skillEntry"
    by (simp add: rt0_def skillEntry_def)
  have p: "syncFile rt0 home ''alpha'' alphaDir ''S.md'' ''v2'' editedState =
          (Inr Preserved, info (''  Preserving user-modified: '' @ ''S.md'') editedState)"
    using rd en ne by (rule syncFile_modified)
  have b: "disk (info (''  Preserving user-modified: '' @ ''S.md'') editedState) = disk editedState \<and>
           manifest (info (''  Preserving user-modified: '' @ ''S.md'') editedState) = manifest editedState"
    using t p by blast
  show ?thesis using h1 syncFile_freshState a p b by blast
qed


section \<open>Running the synchronizer twice\<close>

lemma observed_info [simp]: "observed installDir (info m s) q = observed installDir s q"
  by (simp add: observed_def hashOf_def)

lemma hashOf_engineWrite:
  "hashOf (engineWrite rt profileName q k c s) k' = (if k' = k then Some (sha256 rt c) else hashOf s k')"
  by (simp add: hashOf_def getManifestEntry_engineWrite)

lemma observed_engineWrite_other:
  assumes "prefix installDir w" "prefix installDir q" "w \<noteq> q"
  shows "observed installDir (engineWrite rt profileName w (path_relative installDir w) c s) q
           = observed installDir s q"
proof -
  have "path_relative installDir q \<noteq> path_relative installDir w"
    using path_relative_inj [OF assms(1,2)] assms(3) by auto
  then show ?thesis using assms(3) by (simp add: observed_def hashOf_engineWrite update_conv')
qed

lemma observed_syncFile_other:
  assumes "prefix installDir d" "prefix installDir q" "d @ [name] \<noteq> q"
  shows "observed installDir (snd (syncFile rt installDir profileName d name srcBytes s)) q
           = observed installDir s q"
proof -
  obtain r s' where run: "syncFile rt installDir profileName d name srcBytes s = (r, s')"
    by (cases "syncFile rt installDir profileName d name srcBytes s")
  have pre: "prefix installDir (d @ [name])" using assms(1) by (simp add: prefix_prefix)
  consider (same) "s' = s" | (msg) m where "s' = info m s"
    | (wr) "s' = engineWrite rt profileName (d @ [name]) (path_relative installDir (d @ [name]))
                  (finalContent rt installDir name srcBytes) s"
    using syncFile_result [OF run] by auto
  then have "observed installDir s' q = observed installDir s q"
  proof cases
    case same
    then show ?thesis by simp
  next
    case msg
    then show ?thesis by simp
  next
    case wr
    then show ?thesis using observed_engineWrite_other [OF pre assms(2,3)] by simp
  qed
  then show ?thesis using run by simp
qed

lemma observed_mkdir_other:
  assumes "mkdir_recursive (disk s) d = Inr fs'" "\<not> prefix q d"
  shows "observed installDir (s\<lparr>disk := fs'\<rparr>) q = observed installDir s q"
  using mkdir_recursive_map_of [OF assms(1), of q] assms(2)
  by (simp add: observed_def hashOf_def)

text \<open>A run in a directory leaves every path outside of it as it is.\<close>

lemma copyDir_frame:
  assumes "prefix installDir dest" "prefix installDir q" "\<not> prefix dest q" "\<not> prefix q dest"
  shows "observed installDir (snd (copyDirWithManifestTracking rt installDir profileName entries dest st)) q
           = observed installDir st q"
proof -
  let ?I = "\<lambda>s. observed installDir s q = observed installDir st q"
  have mk: "?I (s\<lparr>disk := fs'\<rparr>)"
    if "?I s" "prefix dest d" "mkdir_recursive (disk s) d = Inr fs'" for s d fs'
  proof -
    have "\<not> prefix q d"
    proof
      assume "prefix q d"
      then have "prefix q dest \<or> prefix dest q"
        using that(2) by (meson prefix_same_cases)
      then show False using assms(3,4) by blast
    qed
    then show ?thesis using observed_mkdir_other [OF that(3)] that(1) by simp
  qed
  have sf: "?I (snd (syncFile rt installDir profileName d name srcBytes s))"
    if "?I s" "prefix dest d" for s d name srcBytes
  proof -
    have "prefix dest (d @ [name])" using that(2) by (simp add: prefix_prefix)
    then have "d @ [name] \<noteq> q" using assms(3) by auto
    moreover have "prefix installDir d" using assms(1) that(2) by (rule prefix_order.trans)
    ultimately show ?thesis using observed_syncFile_other [OF _ assms(2)] that(1) by simp
  qed
  show ?thesis
    by (rule copy_invariant_aux(1) [of ?I dest, OF mk sf]) simp_all
qed

text \<open>The loop over a listing leaves the files of every other name as they are.\<close>

lemma copyEntries_frame:
  assumes "prefix installDir dest" "prefix (dest @ [n]) q" "n \<notin> set (map entry_name entries)"
  shows "observed installDir (snd (copyEntries rt installDir profileName entries dest cnt st)) q
           = observed installDir st q"
  using assms(3)
proof (induction entries arbitrary: cnt st)
  case Nil
  then show ?case by simp
next
  case (Cons a entries)
  have n: "n \<noteq> entry_name a" "n \<notin> set (map entry_name entries)" using Cons.prems by auto
  have q: "prefix installDir q"
    using assms(1,2) by (meson prefix_order.trans prefix_prefix)
  have other: "\<not> prefix (dest @ [m]) q" "\<not> prefix q (dest @ [m])" if "m \<noteq> n" for m
  proof -
    obtain r where r: "q = dest @ [n] @ r" using assms(2) by (auto simp: prefix_def)
    show "\<not> prefix (dest @ [m]) q" using that r by simp
    show "\<not> prefix q (dest @ [m])" using that r by simp
  qed
  show ?case
  proof (cases a)
    case (SrcFile name srcBytes)
    obtain r s' where run: "syncFile rt installDir profileName dest name srcBytes st = (r, s')"
      by (cases "syncFile rt installDir profileName dest name srcBytes st")
    have "dest @ [name] \<noteq> q" using other(1) [of name] n(1) SrcFile by auto
    then have "observed installDir s' q = observed installDir st q"
      using observed_syncFile_other [OF assms(1) q, of name rt profileName srcBytes st] run by simp
    then show ?thesis using SrcFile run Cons.IH [OF n(2)]
      by (simp split: sum.splits outcome.splits)
  next
    case (SrcDir name sub)
    obtain r s' where run:
      "copyDirWithManifestTracking rt installDir profileName sub (dest @ [name]) st = (r, s')"
      by (cases "copyDirWithManifestTracking rt installDir profileName sub (dest @ [name]) st")
    have "prefix installDir (dest @ [name])" using assms(1) by (simp add: prefix_prefix)
    then have "observed installDir s' q = observed installDir st q"
      using copyDir_frame [OF _ q other, of name rt profileName sub st] n(1) SrcDir run by simp
    then show ?thesis using SrcDir run Cons.IH [OF n(2)]
      by (simp split: sum.splits)
  qed
qed

lemma dirs_persist:
  assumes "map_of (disk st) q = Some Dir"
  shows "map_of (disk (snd (copyEntries rt installDir profileName entries dest cnt st))) q = Some Dir"
proof -
  let ?I = "\<lambda>s. map_of (disk s) q = Some Dir"
  have mk: "?I (s\<lparr>disk := fs'\<rparr>)"
    if "?I s" "prefix dest d" "mkdir_recursive (disk s) d = Inr fs'" for s d fs'
    using mkdir_recursive_keeps [OF that(3), of q Dir] that(1) by simp
  have sf: "?I (snd (syncFile rt installDir profileName d name srcBytes s))"
    if "?I s" "prefix dest d" for s d name srcBytes
  proof -
    obtain r s' where run: "syncFile rt installDir profileName d name srcBytes s = (r, s')"
      by (cases "syncFile rt installDir profileName d name srcBytes s")
    consider (same) "s' = s" | (msg) m where "s' = info m s"
      | (wr) "\<not> is_dir (disk s) (d @ [name])"
          "s' = engineWrite rt profileName (d @ [name]) (path_relative installDir (d @ [name]))
                  (finalContent rt installDir name srcBytes) s"
      using syncFile_result [OF run] by auto
    then have "?I s'"
    proof cases
      case same
      then show ?thesis using that(1) by simp
    next
      case msg
      then show ?thesis using that(1) by simp
    next
      case wr
      have "d @ [name] \<noteq> q" using wr(1) that(1) by (auto simp: is_dir_def)
      then show ?thesis using wr(2) that(1) by (simp add: update_conv')
    qed
    then show ?thesis using run by simp
  qed
  show ?thesis
    by (rule copy_invariant_aux(2) [of ?I dest, OF mk sf]) (use assms in simp_all)
qed

lemma all_prefixes_dirs:
  "(\<forall>q. prefix q d \<longrightarrow> is_dir fs q) \<longleftrightarrow> resolve_parent fs d = None \<and> is_dir fs d"
  by (auto simp: resolve_parent_None strict_prefix_def)

lemma copyDir_success_dest:
  assumes "copyDirWithManifestTracking rt installDir profileName entries dest st = (Inr c, s1)"
  shows "resolve_parent (disk s1) dest = None" "is_dir (disk s1) dest"
proof -
  obtain fs1 where mk: "mkdir_recursive (disk st) dest = Inr fs1"
    and run: "copyEntries rt installDir profileName entries dest \<lparr>preserved = 0, installed = 0\<rparr>
                (st\<lparr>disk := fs1\<rparr>) = (Inr c, s1)"
    using assms by (auto split: sum.splits)
  have "is_dir (disk s1) q" if "prefix q dest" for q
  proof (cases "q = []")
    case True
    then show ?thesis by (simp add: is_dir_def)
  next
    case False
    then have "map_of (disk (st\<lparr>disk := fs1\<rparr>)) q = Some Dir"
      using mkdir_recursive_map_of [OF mk, of q] that by simp
    then have "map_of (disk s1) q = Some Dir"
      using dirs_persist [of "st\<lparr>disk := fs1\<rparr>" q rt installDir profileName entries dest
              "\<lparr>preserved = 0, installed = 0\<rparr>"] run by simp
    then show ?thesis by (simp add: is_dir_def)
  qed
  then show "resolve_parent (disk s1) dest = None" "is_dir (disk s1) dest"
    using all_prefixes_dirs [of dest "disk s1"] by simp_all
qed

lemma syncFile_unmodified:
  assumes "readFile (disk s) (d @ [name]) = Inr c0"
      and "getManifestEntry (manifest s) (path_relative installDir (d @ [name])) = Some e"
      and "sha256 rt c0 = hash e"
  shows "syncFile rt installDir profileName d name srcBytes s =
           (Inr Installed,
            engineWrite rt profileName (d @ [name]) (path_relative installDir (d @ [name]))
              (finalContent rt installDir name srcBytes) s)"
proof -
  let ?q = "d @ [name]"
  let ?c = "finalContent rt installDir name srcBytes"
  have ex: "fileExists (disk s) ?q" using assms(1) by (simp add: readFile_Inr fileExists_iff)
  have wr: "writeFile (disk s) ?q ?c = Inr (AList.update ?q (File ?c) (disk s))"
    using assms(1) by (simp add: writeFile_Inr readFile_Inr is_dir_def)
  have rd: "readFile (AList.update ?q (File ?c) (disk s)) ?q = Inr ?c"
    using wr by (rule readFile_after_write)
  have "installFile rt profileName ?q (path_relative installDir ?q) name srcBytes ?c s =
          (Inr Installed, engineWrite rt profileName ?q (path_relative installDir ?q) ?c s)"
    using wr rd
    by (auto simp: installFile_def copyFile_def computeFileHash_def engineWrite_def finalContent_def
             split: if_splits)
  then show ?thesis
    using ex assms by (simp add: syncFile_def Let_def computeFileHash_def finalContent_def)
qed

lemma syncFile_Preserved_cases:
  assumes "syncFile rt installDir profileName d name srcBytes s = (Inr Preserved, s1)"
  shows "fileExists (disk s) (d @ [name]) \<and>
         ((getManifestEntry (manifest s) (path_relative installDir (d @ [name])) = None \<and>
           s1 = info (''  Preserving existing: '' @ name) s) \<or>
          (\<exists>e c. getManifestEntry (manifest s) (path_relative installDir (d @ [name])) = Some e \<and>
                 readFile (disk s) (d @ [name]) = Inr c \<and> sha256 rt c \<noteq> hash e \<and>
                 s1 = info (''  Preserving user-modified: '' @ name) s))"
proof -
  let ?q = "d @ [name]"
  let ?k = "path_relative installDir ?q"
  have ni: "installFile rt profileName ?q ?k name srcBytes c' s \<noteq> (Inr Preserved, s1)" for c'
    using installFile_result [of rt profileName ?q ?k name srcBytes c' s "Inr Preserved" s1] by auto
  have ex: "fileExists (disk s) ?q"
    using assms ni by (auto simp: syncFile_def Let_def split: if_splits)
  show ?thesis
  proof (cases "getManifestEntry (manifest s) ?k")
    case None
    then show ?thesis using assms ex by (simp add: syncFile_def Let_def)
  next
    case (Some e)
    show ?thesis
    proof (cases "readFile (disk s) ?q")
      case (Inl err)
      then show ?thesis using assms ex Some by (simp add: syncFile_def Let_def computeFileHash_def)
    next
      case (Inr c)
      then show ?thesis using assms ex Some ni
        by (auto simp: syncFile_def Let_def computeFileHash_def split: if_splits)
    qed
  qed
qed

lemma hashOf_Some: "hashOf s k = Some h \<longleftrightarrow> (\<exists>e. getManifestEntry (manifest s) k = Some e \<and> hash e = h)"
  by (auto simp: hashOf_def)

lemma hashOf_None: "hashOf s k = None \<longleftrightarrow> getManifestEntry (manifest s) k = None"
  by (simp add: hashOf_def)

lemma finalContent_cong:
  "substituteTemplatePaths rt' = substituteTemplatePaths rt \<Longrightarrow>
   finalContent rt' installDir name srcBytes = finalContent rt installDir name srcBytes"
  by (simp add: finalContent_def)

lemma sameView_refl [simp]: "sameView s s"
  by (simp add: sameView_def)

lemma sameView_info [simp]: "sameView s (info m s)"
  by (simp add: sameView_def hashOf_def)

lemma sameView_trans: "sameView s t \<Longrightarrow> sameView t u \<Longrightarrow> sameView s u"
  by (simp add: sameView_def)

text \<open>
  A step that has handled a file handles it the same way in any state that shows the
  file as the step left it, and changes nothing there.
\<close>

lemma syncFile_stable:
  assumes run: "syncFile rt installDir profileName d name srcBytes s = (Inr oc, s1)"
      and sha: "sha256 rt' = sha256 rt"
      and sub: "substituteTemplatePaths rt' = substituteTemplatePaths rt"
      and agree: "observed installDir t (d @ [name]) = observed installDir s1 (d @ [name])"
      and par: "resolve_parent (disk t) (d @ [name]) = None"
  shows "\<exists>t1 msgs. syncFile rt' installDir profileName d name srcBytes t = (Inr oc, t1) \<and>
           sameView t t1 \<and> console s1 = console s @ msgs \<and> console t1 = console t @ msgs"
proof (cases oc)
  case Preserved
  let ?q = "d @ [name]"
  let ?k = "path_relative installDir ?q"
  note pc = syncFile_Preserved_cases [OF run [unfolded Preserved]]
  have ex: "fileExists (disk s) ?q" using pc by simp
  from pc consider (untracked) "getManifestEntry (manifest s) ?k = None"
        "s1 = info (''  Preserving existing: '' @ name) s"
    | (modified) e c where "getManifestEntry (manifest s) ?k = Some e"
        "readFile (disk s) ?q = Inr c" "sha256 rt c \<noteq> hash e"
        "s1 = info (''  Preserving user-modified: '' @ name) s"
    by auto
  then show ?thesis
  proof cases
    case untracked
    have ag: "map_of (disk t) ?q = map_of (disk s) ?q" "hashOf t ?k = hashOf s ?k"
      using agree untracked(2) by (simp_all add: observed_def hashOf_def)
    have "fileExists (disk t) ?q" using ex par ag(1) by (simp add: fileExists_iff)
    moreover have "getManifestEntry (manifest t) ?k = None"
      using ag(2) untracked(1) by (simp add: hashOf_def)
    ultimately have "syncFile rt' installDir profileName d name srcBytes t =
        (Inr Preserved, info (''  Preserving existing: '' @ name) t)"
      by (rule syncFile_untracked)
    then show ?thesis using Preserved untracked(2)
      by (intro exI [of _ "info (''  Preserving existing: '' @ name) t"]
                exI [of _ "[''  Preserving existing: '' @ name]"]) simp
  next
    case modified
    have ag: "map_of (disk t) ?q = map_of (disk s) ?q" "hashOf t ?k = hashOf s ?k"
      using agree modified(4) by (simp_all add: observed_def hashOf_def)
    have rd: "readFile (disk t) ?q = Inr c"
      using modified(2) par ag(1) by (simp add: readFile_Inr)
    obtain e' where e': "getManifestEntry (manifest t) ?k = Some e'" "hash e' = hash e"
      using ag(2) modified(1) by (auto simp: hashOf_def)
    have "sha256 rt' c \<noteq> hash e'" using modified(3) sha e'(2) by simp
    then have "syncFile rt' installDir profileName d name srcBytes t =
        (Inr Preserved, info (''  Preserving user-modified: '' @ name) t)"
      using rd e'(1) by (intro syncFile_modified)
    then show ?thesis using Preserved modified(4)
      by (intro exI [of _ "info (''  Preserving user-modified: '' @ name) t"]
                exI [of _ "[''  Preserving user-modified: '' @ name]"]) simp
  qed
next
  case Installed
  let ?q = "d @ [name]"
  let ?k = "path_relative installDir ?q"
  let ?c = "finalContent rt installDir name srcBytes"
  have s1: "s1 = engineWrite rt profileName ?q ?k ?c s"
    using syncFile_Installed(1) [OF run [unfolded Installed]] .
  have q: "?q \<noteq> []" by simp
  have ag: "map_of (disk t) ?q = Some (File ?c)" "hashOf t ?k = Some (sha256 rt ?c)"
    using agree s1 by (simp_all add: observed_def hashOf_engineWrite update_conv')
  have rd: "readFile (disk t) ?q = Inr ?c" using ag(1) par by (simp add: readFile_Inr)
  obtain e' where e': "getManifestEntry (manifest t) ?k = Some e'" "hash e' = sha256 rt ?c"
    using ag(2) by (auto simp: hashOf_Some)
  have "sha256 rt' ?c = hash e'" using sha e'(2) by simp
  then have t1: "syncFile rt' installDir profileName d name srcBytes t =
      (Inr Installed, engineWrite rt' profileName ?q ?k (finalContent rt' installDir name srcBytes) t)"
    using rd e'(1) by (intro syncFile_unmodified)
  have c': "finalContent rt' installDir name srcBytes = ?c" using sub by (rule finalContent_cong)
  have "map_of (AList.update ?q (File ?c) (disk t)) = map_of (disk t)"
    using ag(1) by (auto simp: update_conv')
  moreover have "hashOf (engineWrite rt' profileName ?q ?k ?c t) k' = hashOf t k'" for k'
    using ag(2) sha by (simp add: hashOf_engineWrite)
  ultimately have "sameView t (engineWrite rt' profileName ?q ?k ?c t)"
    by (simp add: sameView_def)
  then show ?thesis using Installed t1 c' s1
    by (intro exI [of _ "engineWrite rt' profileName ?q ?k ?c t"] exI [of _ "[]"]) simp
qed

lemma resolve_parent_snoc:
  assumes "resolve_parent fs d = None" "is_dir fs d"
  shows "resolve_parent fs (d @ [n]) = None"
proof -
  have "is_dir fs q" if "strict_prefix q (d @ [n])" for q
  proof -
    have "prefix q d" using that by (metis prefix_snoc strict_prefix_def)
    then show ?thesis using assms all_prefixes_dirs [of d fs] by blast
  qed
  then show ?thesis by (simp add: resolve_parent_None)
qed

lemma sameView_observed: "sameView t t' \<Longrightarrow> observed installDir t' q = observed installDir t q"
  by (simp add: sameView_def observed_def)

lemma sameView_resolve:
  assumes "sameView t t'"
  shows "resolve_parent (disk t') p = resolve_parent (disk t) p" "is_dir (disk t') p = is_dir (disk t) p"
  using assms by (simp_all add: sameView_def resolve_parent_def is_dir_def split: list.splits)

text \<open>
  A run that has ended runs again, in any state that shows the files of its source tree
  as it left them, to the same counts and the same lines, and changes nothing there.
\<close>

lemma rerun_stable:
  "copyDirWithManifestTracking rt installDir profileName entries dest st = (Inr c, s1) \<Longrightarrow>
   sha256 rt' = sha256 rt \<Longrightarrow> substituteTemplatePaths rt' = substituteTemplatePaths rt \<Longrightarrow>
   prefix installDir dest \<Longrightarrow> distinct_names entries \<Longrightarrow>
   (\<forall>q. prefix dest q \<longrightarrow> observed installDir t q = observed installDir s1 q) \<Longrightarrow>
   resolve_parent (disk t) dest = None \<Longrightarrow>
   \<exists>t1 msgs. copyDirWithManifestTracking rt' installDir profileName entries dest t = (Inr c, t1) \<and>
      sameView t t1 \<and> console s1 = console st @ msgs \<and> console t1 = console t @ msgs \<and>
      preservedFiles rt' installDir profileName entries dest t
        = preservedFiles rt installDir profileName entries dest st"
  "copyEntries rt installDir profileName entries dest cnt st = (Inr c, s1) \<Longrightarrow>
   sha256 rt' = sha256 rt \<Longrightarrow> substituteTemplatePaths rt' = substituteTemplatePaths rt \<Longrightarrow>
   prefix installDir dest \<Longrightarrow> distinct_names entries \<Longrightarrow>
   (\<forall>e\<in>set entries. \<forall>q. prefix (dest @ [entry_name e]) q \<longrightarrow>
        observed installDir t q = observed installDir s1 q) \<Longrightarrow>
   resolve_parent (disk t) dest = None \<Longrightarrow> is_dir (disk t) dest \<Longrightarrow>
   \<exists>t1 msgs. copyEntries rt' installDir profileName entries dest cnt t = (Inr c, t1) \<and>
      sameView t t1 \<and> console s1 = console st @ msgs \<and> console t1 = console t @ msgs \<and>
      preservedEntries rt' installDir profileName entries dest t
        = preservedEntries rt installDir profileName entries dest st"
proof (induction rt installDir profileName entries dest st
         and rt installDir profileName entries dest cnt st
       arbitrary: c s1 t and c s1 t
       rule: copyDirWithManifestTracking_copyEntries.induct)
  case (1 rt installDir profileName entries dest st)
  obtain fs1 where mk: "mkdir_recursive (disk st) dest = Inr fs1"
    and run: "copyEntries rt installDir profileName entries dest \<lparr>preserved = 0, installed = 0\<rparr>
                (st\<lparr>disk := fs1\<rparr>) = (Inr c, s1)"
    using "1.prems"(1) by (auto split: sum.splits)
  have "is_dir (disk s1) dest" using copyDir_success_dest(2) [OF "1.prems"(1)] .
  moreover have "map_of (disk t) dest = map_of (disk s1) dest"
    using "1.prems"(6) by (simp add: observed_def)
  ultimately have dir: "is_dir (disk t) dest" by (simp add: is_dir_def)
  have noop: "mkdir_recursive (disk t) dest = Inr (disk t)"
    using "1.prems"(7) dir by (rule mkdir_recursive_noop)
  have agree: "\<forall>e\<in>set entries. \<forall>q. prefix (dest @ [entry_name e]) q \<longrightarrow>
        observed installDir t q = observed installDir s1 q"
    using "1.prems"(6) by (meson prefix_order.trans prefix_prefix prefix_order.refl)
  obtain t1 msgs where
    "copyEntries rt' installDir profileName entries dest \<lparr>preserved = 0, installed = 0\<rparr> t = (Inr c, t1)"
    "sameView t t1" "console s1 = console (st\<lparr>disk := fs1\<rparr>) @ msgs" "console t1 = console t @ msgs"
    "preservedEntries rt' installDir profileName entries dest t
       = preservedEntries rt installDir profileName entries dest (st\<lparr>disk := fs1\<rparr>)"
    using "1.IH" [OF mk run "1.prems"(2,3,4,5) agree "1.prems"(7) dir] by blast
  then show ?case using noop mk by (intro exI [of _ t1] exI [of _ msgs]) simp
next
  case (2 rt installDir profileName dest cnt st)
  then show ?case by (intro exI [of _ t] exI [of _ "[]"]) simp
next
  case (3 rt installDir profileName name sub es dest cnt st)
  obtain b s_mid where run1:
      "copyDirWithManifestTracking rt installDir profileName sub (dest @ [name]) st = (Inr b, s_mid)"
    and run2: "copyEntries rt installDir profileName es dest
                 \<lparr>preserved = preserved cnt + preserved b, installed = installed cnt + installed b\<rparr>
                 s_mid = (Inr c, s1)"
    using "3.prems"(1) by (auto split: prod.splits sum.splits)
  have dn: "name \<notin> set (map entry_name es)" "distinct_names sub" "distinct_names es"
    using "3.prems"(5) by simp_all
  have pre: "prefix installDir (dest @ [name])" using "3.prems"(4) by (simp add: prefix_prefix)
  have fr: "observed installDir s1 q = observed installDir s_mid q" if "prefix (dest @ [name]) q" for q
    using copyEntries_frame [OF "3.prems"(4) that dn(1), of rt profileName
            "\<lparr>preserved = preserved cnt + preserved b, installed = installed cnt + installed b\<rparr>" s_mid]
      run2 by simp
  have agree1: "\<forall>q. prefix (dest @ [name]) q \<longrightarrow> observed installDir t q = observed installDir s_mid q"
    using "3.prems"(6) fr by simp
  have par1: "resolve_parent (disk t) (dest @ [name]) = None"
    using "3.prems"(7,8) by (rule resolve_parent_snoc)
  obtain t_mid msgs1 where m:
      "copyDirWithManifestTracking rt' installDir profileName sub (dest @ [name]) t = (Inr b, t_mid)"
      "sameView t t_mid" "console s_mid = console st @ msgs1" "console t_mid = console t @ msgs1"
      "preservedFiles rt' installDir profileName sub (dest @ [name]) t
         = preservedFiles rt installDir profileName sub (dest @ [name]) st"
    using "3.IH"(1) [OF run1 "3.prems"(2,3) pre dn(2) agree1 par1] by blast
  have agree2: "\<forall>e\<in>set es. \<forall>q. prefix (dest @ [entry_name e]) q \<longrightarrow>
        observed installDir t_mid q = observed installDir s1 q"
    using "3.prems"(6) sameView_observed [OF m(2)] by simp
  have par2: "resolve_parent (disk t_mid) dest = None" "is_dir (disk t_mid) dest"
    using "3.prems"(7,8) sameView_resolve [OF m(2)] by simp_all
  obtain t1 msgs2 where r:
      "copyEntries rt' installDir profileName es dest
         \<lparr>preserved = preserved cnt + preserved b, installed = installed cnt + installed b\<rparr>
         t_mid = (Inr c, t1)"
      "sameView t_mid t1" "console s1 = console s_mid @ msgs2" "console t1 = console t_mid @ msgs2"
      "preservedEntries rt' installDir profileName es dest t_mid
         = preservedEntries rt installDir profileName es dest s_mid"
    using "3.IH"(2) [OF run1 [symmetric] refl run2 "3.prems"(2,3,4) dn(3) agree2 par2] by blast
  show ?case
    using m r run1 sameView_trans [OF m(2) r(2)]
    by (intro exI [of _ t1] exI [of _ "msgs1 @ msgs2"]) simp
next
  case (4 rt installDir profileName name srcBytes es dest cnt st)
  obtain oc s_mid where run1:
      "syncFile rt installDir profileName dest name srcBytes st = (Inr oc, s_mid)"
    using "4.prems"(1) by (auto split: prod.splits sum.splits)
  have dn: "name \<notin> set (map entry_name es)" "distinct_names es"
    using "4.prems"(5) by simp_all
  have par1: "resolve_parent (disk t) (dest @ [name]) = None"
    using "4.prems"(7,8) by (rule resolve_parent_snoc)
  show ?case
  proof (cases oc)
    case Preserved
    have run2: "copyEntries rt installDir profileName es dest (cnt\<lparr>preserved := preserved cnt + 1\<rparr>)
                  s_mid = (Inr c, s1)"
      using "4.prems"(1) run1 Preserved by simp
    have fr: "observed installDir s1 (dest @ [name]) = observed installDir s_mid (dest @ [name])"
      using copyEntries_frame [OF "4.prems"(4) _ dn(1), of "dest @ [name]" rt profileName
              "cnt\<lparr>preserved := preserved cnt + 1\<rparr>" s_mid] run2
      by simp
    have agree1: "observed installDir t (dest @ [name]) = observed installDir s_mid (dest @ [name])"
      using "4.prems"(6) fr by simp
    obtain t_mid msgs1 where m:
        "syncFile rt' installDir profileName dest name srcBytes t = (Inr oc, t_mid)"
        "sameView t t_mid" "console s_mid = console st @ msgs1" "console t_mid = console t @ msgs1"
      using syncFile_stable [OF run1 "4.prems"(2,3) agree1 par1] by blast
    have agree2: "\<forall>e\<in>set es. \<forall>q. prefix (dest @ [entry_name e]) q \<longrightarrow>
          observed installDir t_mid q = observed installDir s1 q"
      using "4.prems"(6) sameView_observed [OF m(2)] by simp
    have par2: "resolve_parent (disk t_mid) dest = None" "is_dir (disk t_mid) dest"
      using "4.prems"(7,8) sameView_resolve [OF m(2)] by simp_all
    obtain t1 msgs2 where r:
        "copyEntries rt' installDir profileName es dest (cnt\<lparr>preserved := preserved cnt + 1\<rparr>)
           t_mid = (Inr c, t1)"
        "sameView t_mid t1" "console s1 = console s_mid @ msgs2" "console t1 = console t_mid @ msgs2"
        "preservedEntries rt' installDir profileName es dest t_mid
           = preservedEntries rt installDir profileName es dest s_mid"
      using "4.IH"(1) [OF run1 [symmetric] refl Preserved run2 "4.prems"(2,3,4) dn(2) agree2 par2]
      by blast
    show ?thesis
      using m r run1 Preserved sameView_trans [OF m(2) r(2)]
      by (intro exI [of _ t1] exI [of _ "msgs1 @ msgs2"]) simp
  next
    case Installed
    have run2: "copyEntries rt installDir profileName es dest (cnt\<lparr>installed := installed cnt + 1\<rparr>)
                  s_mid = (Inr c, s1)"
      using "4.prems"(1) run1 Installed by simp
    have fr: "observed installDir s1 (dest @ [name]) = observed installDir s_mid (dest @ [name])"
      using copyEntries_frame [OF "4.prems"(4) _ dn(1), of "dest @ [name]" rt profileName
              "cnt\<lparr>installed := installed cnt + 1\<rparr>" s_mid] run2
      by simp
    have agree1: "observed installDir t (dest @ [name]) = observed installDir s_mid (dest @ [name])"
      using "4.prems"(6) fr by simp
    obtain t_mid msgs1 where m:
        "syncFile rt' installDir profileName dest name srcBytes t = (Inr oc, t_mid)"
        "sameView t t_mid" "console s_mid = console st @ msgs1" "console t_mid = console t @ msgs1"
      using syncFile_stable [OF run1 "4.prems"(2,3) agree1 par1] by blast
    have agree2: "\<forall>e\<in>set es. \<forall>q. prefix (dest @ [entry_name e]) q \<longrightarrow>
          observed installDir t_mid q = observed installDir s1 q"
      using "4.prems"(6) sameView_observed [OF m(2)] by simp
    have par2: "resolve_parent (disk t_mid) dest = None" "is_dir (disk t_mid) dest"
      using "4.prems"(7,8) sameView_resolve [OF m(2)] by simp_all
    obtain t1 msgs2 where r:
        "copyEntries rt' installDir profileName es dest (cnt\<lparr>installed := installed cnt + 1\<rparr>)
           t_mid = (Inr c, t1)"
        "sameView t_mid t1" "console s1 = console s_mid @ msgs2" "console t1 = console t_mid @ msgs2"
        "preservedEntries rt' installDir profileName es dest t_mid
           = preservedEntries rt installDir profileName es dest s_mid"
      using "4.IH"(2) [OF run1 [symmetric] refl Installed run2 "4.prems"(2,3,4) dn(2) agree2 par2]
      by blast
    show ?thesis
      using m r run1 Installed sameView_trans [OF m(2) r(2)]
      by (intro exI [of _ t1] exI [of _ "msgs1 @ msgs2"]) simp
  qed
qed

text \<open>The counter \<open>preserved\<close> of a run that ends counts these paths.\<close>

lemma preserved_count:
  "copyDirWithManifestTracking rt installDir profileName entries dest st = (Inr c, s1) \<Longrightarrow>
   preserved c = length (preservedFiles rt installDir profileName entries dest st)"
  "copyEntries rt installDir profileName entries dest cnt st = (Inr c, s1) \<Longrightarrow>
   preserved c = preserved cnt + length (preservedEntries rt installDir profileName entries dest st)"
proof (induction rt installDir profileName entries dest st
         and rt installDir profileName entries dest cnt st
       arbitrary: c s1 and c s1
       rule: copyDirWithManifestTracking_copyEntries.induct)
  case (1 rt installDir profileName entries dest st)
  obtain fs1 where mk: "mkdir_recursive (disk st) dest = Inr fs1"
    and run: "copyEntries rt installDir profileName entries dest \<lparr>preserved = 0, installed = 0\<rparr>
                (st\<lparr>disk := fs1\<rparr>) = (Inr c, s1)"
    using "1.prems"(1) by (auto split: sum.splits)
  show ?case using "1.IH" [OF mk run] mk by simp
next
  case (2 rt installDir profileName dest cnt st)
  then show ?case by simp
next
  case (3 rt installDir profileName name sub es dest cnt st)
  obtain b s_mid where run1:
      "copyDirWithManifestTracking rt installDir profileName sub (dest @ [name]) st = (Inr b, s_mid)"
    and run2: "copyEntries rt installDir profileName es dest
                 \<lparr>preserved = preserved cnt + preserved b, installed = installed cnt + installed b\<rparr>
                 s_mid = (Inr c, s1)"
    using "3.prems"(1) by (auto split: prod.splits sum.splits)
  show ?case
    using "3.IH"(1) [OF run1] "3.IH"(2) [OF run1 [symmetric] refl run2] run1 by simp
next
  case (4 rt installDir profileName name srcBytes es dest cnt st)
  obtain oc s_mid where run1:
      "syncFile rt installDir profileName dest name srcBytes st = (Inr oc, s_mid)"
    using "4.prems"(1) by (auto split: prod.splits sum.splits)
  show ?case
  proof (cases oc)
    case Preserved
    have run2: "copyEntries rt installDir profileName es dest (cnt\<lparr>preserved := preserved cnt + 1\<rparr>)
                  s_mid = (Inr c, s1)"
      using "4.prems"(1) run1 Preserved by simp
    show ?thesis
      using "4.IH"(1) [OF run1 [symmetric] refl Preserved run2] run1 Preserved by simp
  next
    case Installed
    have run2: "copyEntries rt installDir profileName es dest (cnt\<lparr>installed := installed cnt + 1\<rparr>)
                  s_mid = (Inr c, s1)"
      using "4.prems"(1) run1 Installed by simp
    show ?thesis
      using "4.IH"(2) [OF run1 [symmetric] refl Installed run2] run1 Installed by simp
  qed
qed

lemma readFile_cong: "map_of fs' = map_of fs \<Longrightarrow> readFile fs' p = readFile fs p"
  by (simp add: readFile_def stat_def resolve_parent_def is_dir_def split: list.splits)

text \<open>
  C4. Let a sync run of a source tree with distinct names in every directory, into a
  destination under the install directory, end with its counts. Then the run of the same
  tree in the state it left, at a later time, ends with the same counts and preserves
  the same destination paths, in the same order and with the same lines printed; after
  it every path of the disk holds what it held after the first run, and every manifest
  entry has the hash it had.
\<close>

theorem sync_twice:
  assumes "copyDirWithManifestTracking rt installDir profileName entries dest st = (Inr c, st1)"
      and "sha256 rt' = sha256 rt"
      and "substituteTemplatePaths rt' = substituteTemplatePaths rt"
      and "prefix installDir dest"
      and "distinct_names entries"
  shows "\<exists>st2 msgs.
           copyDirWithManifestTracking rt' installDir profileName entries dest st1 = (Inr c, st2) \<and>
           preservedFiles rt' installDir profileName entries dest st1
             = preservedFiles rt installDir profileName entries dest st \<and>
           preserved c = length (preservedFiles rt installDir profileName entries dest st) \<and>
           console st1 = console st @ msgs \<and> console st2 = console st1 @ msgs \<and>
           map_of (disk st2) = map_of (disk st1) \<and>
           (\<forall>p. readFile (disk st2) p = readFile (disk st1) p) \<and>
           (\<forall>k. map_option hash (getManifestEntry (manifest st2) k)
                 = map_option hash (getManifestEntry (manifest st1) k))"
proof -
  have par: "resolve_parent (disk st1) dest = None"
    using copyDir_success_dest(1) [OF assms(1)] .
  obtain st2 msgs where r:
      "copyDirWithManifestTracking rt' installDir profileName entries dest st1 = (Inr c, st2)"
      "sameView st1 st2" "console st1 = console st @ msgs" "console st2 = console st1 @ msgs"
      "preservedFiles rt' installDir profileName entries dest st1
         = preservedFiles rt installDir profileName entries dest st"
    using rerun_stable(1) [OF assms(1,2,3,4,5) _ par] by blast
  have m: "map_of (disk st2) = map_of (disk st1)" using r(2) by (simp add: sameView_def)
  have h: "map_option hash (getManifestEntry (manifest st2) k)
             = map_option hash (getManifestEntry (manifest st1) k)" for k
    using r(2) by (simp add: sameView_def hashOf_def)
  show ?thesis
    using r(1,3,4,5) m h readFile_cong [OF m] preserved_count(1) [OF assms(1)]
    by (intro exI [of _ st2] exI [of _ msgs]) simp
qed

lemma run_mixedState:
  "fst (copyDirWithManifestTracking rt0 home ''alpha'' alphaTree alphaDir mixedState)
     = Inr \<lparr>preserved = 2, installed = 1\<rparr>"
  by (simp add: alphaTree_def mixedState_def alphaDir_def home_def skillFile_def skillKey_def
        skillEntry_def manifest0_def claudeDir0_def skillsDir0_def rt0_def
        mkdir_recursive_def syncFile_def installFile_def fileExists_def fs_access_def stat_def
        resolve_parent_def ancestors_def is_dir_def computeFileHash_def readFile_def writeFile_def
        copyFile_def getManifestEntry_def addToManifest_def info_def currentVersion_def
        suffix_to_prefix path_string_def Let_def)

lemma preserved_mixedState:
  "preservedFiles rt0 home ''alpha'' alphaTree alphaDir mixedState
     = [alphaDir @ [''S.md''], alphaDir @ [''notes.txt'']]"
  by (simp add: alphaTree_def mixedState_def alphaDir_def home_def skillFile_def skillKey_def
        skillEntry_def manifest0_def claudeDir0_def skillsDir0_def rt0_def
        mkdir_recursive_def syncFile_def installFile_def fileExists_def fs_access_def stat_def
        resolve_parent_def ancestors_def is_dir_def computeFileHash_def readFile_def writeFile_def
        copyFile_def getManifestEntry_def addToManifest_def info_def currentVersion_def
        suffix_to_prefix path_string_def Let_def)

theorem sync_twice_witness:
  "sha256 rt1 = sha256 rt0 \<and> substituteTemplatePaths rt1 = substituteTemplatePaths rt0 \<and>
   prefix home alphaDir \<and> distinct_names alphaTree \<and>
   (\<exists>st1. copyDirWithManifestTracking rt0 home ''alpha'' alphaTree alphaDir mixedState
             = (Inr \<lparr>preserved = 2, installed = 1\<rparr>, st1) \<and>
      (\<exists>st2 msgs. copyDirWithManifestTracking rt1 home ''alpha'' alphaTree alphaDir st1
                     = (Inr \<lparr>preserved = 2, installed = 1\<rparr>, st2) \<and>
         preservedFiles rt1 home ''alpha'' alphaTree alphaDir st1
           = [alphaDir @ [''S.md''], alphaDir @ [''notes.txt'']] \<and>
         console st1 = console mixedState @ msgs \<and> console st2 = console st1 @ msgs \<and>
         map_of (disk st2) = map_of (disk st1)))"
proof -
  let ?st1 = "snd (copyDirWithManifestTracking rt0 home ''alpha'' alphaTree alphaDir mixedState)"
  have h1: "sha256 rt1 = sha256 rt0" by (simp add: rt1_def)
  have h2: "substituteTemplatePaths rt1 = substituteTemplatePaths rt0" by (simp add: rt1_def)
  have h3: "prefix home alphaDir" by (simp add: home_def alphaDir_def)
  have h4: "distinct_names alphaTree" by (simp add: alphaTree_def)
  have run1: "copyDirWithManifestTracking rt0 home ''alpha'' alphaTree alphaDir mixedState
                = (Inr \<lparr>preserved = 2, installed = 1\<rparr>, ?st1)"
    using run_mixedState by (simp add: prod_eq_iff)
  obtain st2 msgs where r:
      "copyDirWithManifestTracking rt1 home ''alpha'' alphaTree alphaDir ?st1
         = (Inr \<lparr>preserved = 2, installed = 1\<rparr>, st2)"
      "preservedFiles rt1 home ''alpha'' alphaTree alphaDir ?st1
         = preservedFiles rt0 home ''alpha'' alphaTree alphaDir mixedState"
      "console ?st1 = console mixedState @ msgs" "console st2 = console ?st1 @ msgs"
      "map_of (disk st2) = map_of (disk ?st1)"
    using sync_twice [OF run1 h1 h2 h3 h4] by blast
  show ?thesis
    using h1 h2 h3 h4 run1 r preserved_mixedState by auto
qed


end
